theory Spec2Isabelle
  imports Complex_Main "HOL-Library.Multiset"
begin

section \<open>JavaScript values used by the binding pipeline\<close>

text \<open>
  Numbers of the source are IEEE doubles. The development idealises finite doubles as
  \<^typ>\<open>real\<close> and keeps the two non-finite values that steer control flow in the
  nearest-primitive searches: \<open>Infinity\<close> (the initial \<open>minDistance\<close>) and \<open>NaN\<close>
  (every comparison with it is false).

  An array slot that holds \<open>undefined\<close> (a read past the end of an array that was pushed
  into an output array) is \<^term>\<open>None\<close>; a slot that holds a number \<open>v\<close> is
  \<^term>\<open>Some v\<close>.
\<close>

datatype jsdist = Fin real | PosInf | NaN

text \<open>The \<open><\<close> of JavaScript on distances.\<close>

fun js_less :: "jsdist \<Rightarrow> jsdist \<Rightarrow> bool" where
  "js_less (Fin a) (Fin b) = (a < b)"
| "js_less (Fin a) PosInf = True"
| "js_less _ _ = False"

datatype error =
    TypeError
  | NoValidVertices
  | MaxDifferenceIsMinusInfinity
  | CouldNotFindTarget real
  | NoVerticesFound

type_synonym vec3 = "real \<times> real \<times> real"

text \<open>Reading \<open>a[i]\<close>: \<open>undefined\<close> past the end.\<close>

definition js_nth :: "'a list \<Rightarrow> nat \<Rightarrow> 'a option" where
  "js_nth xs i = (if i < length xs then Some (xs ! i) else None)"

text \<open>Reading a slot of an array of JavaScript values: \<open>undefined\<close> past the end.\<close>

definition js_get :: "'a option list \<Rightarrow> nat \<Rightarrow> 'a option" where
  "js_get xs i = (if i < length xs then xs ! i else None)"

text \<open>
  \<open>new THREE.Vector3(a[i*3+0], a[i*3+1], a[i*3+2])\<close> on a flat array. A vector with an
  \<open>undefined\<close> component computes only \<open>NaN\<close>; it is \<^term>\<open>None\<close>.
\<close>

definition vec3_at :: "real list \<Rightarrow> nat \<Rightarrow> vec3 option" where
  "vec3_at a i =
     (if i * 3 + 2 < length a then Some (a ! (i * 3), a ! (i * 3 + 1), a ! (i * 3 + 2))
      else None)"

section \<open>Scene data: splat cloud, capsules, skinned mesh\<close>

text \<open>
  The three binding arrays are shared by the splat cloud object (\<open>gs\<close>), the metadata
  record of the archive (\<open>extraData\<close>) and the loaded asset.

  \<open>GaussianSplatting\<close> (\<open>gs\<close>): the fields the binding stages read and write.
  \<open>colors\<close> is a typed array: a write past its end is ignored, as \<open>xs[i := v]\<close> is.
\<close>

record binding =
  splatVertexIndices :: "nat option list"
  splatBoneIndices :: "int option list"
  splatRelativePoses :: "real option list"

record gs = binding +
  splatCount :: nat
  centers0 :: "real list"
  colors :: "real list"

text \<open>
  A capsule of \<open>pmc.capsules.children\<close>: \<open>geometry.index\<close> is absent (\<^term>\<open>None\<close>) or has
  \<open>count\<close> entries.
\<close>

record capsule =
  index_count :: "nat option"

text \<open>
  The operations of three.js on the live scene graph are parameters of the model:
  \<^item> \<open>gsSceneMatrixWorld\<close>: \<open>applyMatrix4(gs.viewer.splatMesh.scenes[0].matrixWorld)\<close>;
  \<^item> \<open>gsMatrixWorld\<close>: \<open>applyMatrix4(gs.matrixWorld)\<close>;
  \<^item> \<open>vrmMatrixWorld\<close>: \<open>applyMatrix4(character.currentVrm.scene.matrixWorld)\<close>;
  \<^item> \<open>vrmMatrixWorldInv\<close>: \<open>applyMatrix4\<close> of the inverted copy of that matrix;
  \<^item> \<open>applyBoneTransform\<close>: \<open>skinnedMesh.applyBoneTransform(index, vertex)\<close>;
  \<^item> \<open>triangleDistance p ci ii\<close>: the distance from \<open>p\<close> to its closest point on the
    triangle of capsule \<open>ci\<close> whose first index is at offset \<open>ii\<close>, vertices taken through
    the capsule's \<open>matrixWorld\<close> (\<open>NaN\<close> for \<^term>\<open>None\<close>);
  \<^item> \<open>distanceTo\<close>: \<open>Vector3.distanceTo\<close>.
\<close>

record world =
  position :: "vec3 list"
  applyBoneTransform :: "nat \<Rightarrow> vec3 \<Rightarrow> vec3"
  vrmMatrixWorld :: "vec3 \<Rightarrow> vec3"
  vrmMatrixWorldInv :: "vec3 \<Rightarrow> vec3"
  gsSceneMatrixWorld :: "vec3 \<Rightarrow> vec3"
  gsMatrixWorld :: "vec3 \<Rightarrow> vec3"
  triangleDistance :: "vec3 option \<Rightarrow> nat \<Rightarrow> nat \<Rightarrow> jsdist"
  distanceTo :: "vec3 \<Rightarrow> vec3 \<Rightarrow> jsdist"

text \<open>\<open>GVRMUtils.colors\<close>: the palette of 14 colours.\<close>

definition palette :: "(real \<times> real \<times> real) list" where
  "palette =
     [(255, 222, 62), (138, 119, 199), (243, 82, 82), (16, 157, 123), (43, 247, 242),
      (120, 84, 254), (157, 238, 149), (80, 105, 17), (39, 121, 232), (88, 149, 76),
      (22, 60, 188), (243, 67, 171), (94, 62, 2), (162, 192, 4)]"

text \<open>
  The three writes \<open>gs.colors[i*4+k] = GVRMUtils.colors[ci][k]\<close>; \<open>GVRMUtils.colors[ci]\<close> is
  \<open>undefined\<close> past the palette and reading \<open>[0]\<close> of it throws.
\<close>

definition paint :: "real list \<Rightarrow> nat \<Rightarrow> nat \<Rightarrow> error + real list" where
  "paint cols i ci =
     (case js_nth palette ci of
        None \<Rightarrow> Inl TypeError
      | Some (r, g, b) \<Rightarrow> Inr (cols[i * 4 := r, i * 4 + 1 := g, i * 4 + 2 := b]))"

section \<open>Nearest-capsule search\<close>

text \<open>
  The offsets \<open>ii = 0, 3, 6, \<dots> < count\<close> of the triangle loop.
\<close>

definition triangleOffsets :: "nat \<Rightarrow> nat list" where
  "triangleOffsets n = map (\<lambda>k. 3 * k) [0 ..< (n + 2) div 3]"

text \<open>
  The search state is \<open>(minDistance, bestCi, number of distance evaluations)\<close>. The source
  writes the splat loop (\<open>bestCi\<close> starts at \<open>0\<close>) and the mesh-vertex loop (\<open>bestCi\<close> starts
  at \<open>undefined\<close>) separately with the same body; \<open>mk\<close> turns a capsule ordinal into the
  type of \<open>bestCi\<close>.
\<close>

definition scanTriangle ::
  "world \<Rightarrow> vec3 option \<Rightarrow> (nat \<Rightarrow> 'b) \<Rightarrow> nat \<Rightarrow> nat \<Rightarrow> jsdist \<times> 'b \<times> nat \<Rightarrow> jsdist \<times> 'b \<times> nat"
where
  "scanTriangle w p mk ci ii st =
     (case st of (minDistance, bestCi, evals) \<Rightarrow>
        let distance = triangleDistance w p ci ii
        in if js_less distance minDistance then (distance, mk ci, Suc evals)
           else (minDistance, bestCi, Suc evals))"

definition scanCapsule ::
  "world \<Rightarrow> vec3 option \<Rightarrow> (nat \<Rightarrow> 'b) \<Rightarrow> nat \<times> capsule \<Rightarrow> jsdist \<times> 'b \<times> nat \<Rightarrow> jsdist \<times> 'b \<times> nat"
where
  "scanCapsule w p mk c st =
     (case c of (ci, cap) \<Rightarrow>
        (case index_count cap of
           None \<Rightarrow> st
         | Some n \<Rightarrow> fold (scanTriangle w p mk ci) (triangleOffsets n) st))"

definition scanCapsules ::
  "world \<Rightarrow> vec3 option \<Rightarrow> (nat \<Rightarrow> 'b) \<Rightarrow> capsule list \<Rightarrow> 'b \<Rightarrow> nat \<Rightarrow> 'b \<times> nat"
where
  "scanCapsules w p mk capsules best0 evals =
     snd (fold (scanCapsule w p mk) (enumerate 0 capsules) (PosInf, best0, evals))"

section \<open>Splat classifier: \<open>assignSplatsToBones\<close>\<close>

text \<open>
  One iteration of the main loop (line 52). The state is
  \<open>(bestCi, splatBoneIndices, colors, distance evaluations)\<close>; \<open>bestCi\<close> survives from one
  splat to the next, which is what the fast mode reuses.
\<close>

definition bonesStep ::
  "world \<Rightarrow> real list \<Rightarrow> capsule list \<Rightarrow> int list \<Rightarrow> bool \<Rightarrow> nat \<Rightarrow>
   nat \<times> int option list \<times> real list \<times> nat \<Rightarrow> error + nat \<times> int option list \<times> real list \<times> nat"
where
  "bonesStep w c0 capsules capsuleBoneIndex fast i st =
     (case st of (bestCi, sbi, cols, evals) \<Rightarrow>
        if fast \<and> i mod 10 \<noteq> 0 then
          (case paint cols i bestCi of
             Inl e \<Rightarrow> Inl e
           | Inr cols' \<Rightarrow> Inr (bestCi, sbi @ [js_nth capsuleBoneIndex bestCi], cols', evals))
        else
          let targetPoint = map_option (gsSceneMatrixWorld w) (vec3_at c0 i);
              (bestCi', evals') = scanCapsules w targetPoint id capsules 0 evals
          in (case paint cols i bestCi' of
                Inl e \<Rightarrow> Inl e
              | Inr cols' \<Rightarrow>
                  Inr (bestCi', sbi @ [js_nth capsuleBoneIndex bestCi'], cols', evals')))"

fun bonesLoop ::
  "world \<Rightarrow> real list \<Rightarrow> capsule list \<Rightarrow> int list \<Rightarrow> bool \<Rightarrow> nat list \<Rightarrow>
   nat \<times> int option list \<times> real list \<times> nat \<Rightarrow> error + nat \<times> int option list \<times> real list \<times> nat"
where
  "bonesLoop w c0 capsules cbi fast [] st = Inr st"
| "bonesLoop w c0 capsules cbi fast (i # is) st =
     (case bonesStep w c0 capsules cbi fast i st of
        Inl e \<Rightarrow> Inl e
      | Inr st' \<Rightarrow> bonesLoop w c0 capsules cbi fast is st')"

text \<open>
  The loop of the skeleton-only branch (line 38): push the default bone index \<open>0\<close> and
  paint the splat with palette entry \<open>0\<close>.
\<close>

fun defaultBoneLoop :: "nat list \<Rightarrow> int option list \<times> real list \<Rightarrow> error + int option list \<times> real list" where
  "defaultBoneLoop [] st = Inr st"
| "defaultBoneLoop (i # is) (sbi, cols) =
     (case paint cols i 0 of
        Inl e \<Rightarrow> Inl e
      | Inr cols' \<Rightarrow> defaultBoneLoop is (sbi @ [Some 0], cols'))"

text \<open>
  \<open>assignSplatsToBones(gs, capsules, capsuleBoneIndex, fast)\<close>. The result is the updated
  \<open>gs\<close> and the number of point-to-triangle distance evaluations that were made. Progress
  display and texture upload do not touch the fields modelled here.
\<close>

definition assignSplatsToBones ::
  "world \<Rightarrow> gs \<Rightarrow> capsule list \<Rightarrow> int list \<Rightarrow> bool \<Rightarrow> error + gs \<times> nat"
where
  "assignSplatsToBones w g capsules capsuleBoneIndex fast =
     (if length capsules = 0 then
        (case defaultBoneLoop [0 ..< splatCount g] ([], colors g) of
           Inl e \<Rightarrow> Inl e
         | Inr (sbi, cols) \<Rightarrow> Inr (g\<lparr>splatBoneIndices := sbi, colors := cols\<rparr>, 0))
      else
        (case bonesLoop w (centers0 g) capsules capsuleBoneIndex fast [0 ..< splatCount g]
                (0, [], colors g, 0) of
           Inl e \<Rightarrow> Inl e
         | Inr (bestCi, sbi, cols, evals) \<Rightarrow>
             Inr (g\<lparr>splatBoneIndices := sbi, colors := cols\<rparr>, evals)))"

section \<open>Vertex classifier and splat-to-vertex binder: \<open>assignSplatsToPoints\<close>\<close>

text \<open>
  \<open>boneVertexIndices\<close>: an object keyed by bone index. Its keys are the values of
  \<open>capsuleBoneIndex\<close>, each starting with the empty pool (line 150).
\<close>

type_synonym pools = "int \<Rightarrow> nat list option"

definition emptyPools :: "int list \<Rightarrow> pools" where
  "emptyPools capsuleBoneIndex = fold (\<lambda>v m. m(v \<mapsto> [])) capsuleBoneIndex Map.empty"

text \<open>
  \<open>boneVertexIndices[key]\<close> for a key that may be \<open>undefined\<close>: no pool is stored under
  \<open>undefined\<close>, since \<open>capsuleBoneIndex\<close> holds numbers.
\<close>

definition poolOf :: "pools \<Rightarrow> int option \<Rightarrow> nat list option" where
  "poolOf m key = (case key of None \<Rightarrow> None | Some b \<Rightarrow> m b)"

text \<open>The posed world-space position of mesh vertex \<open>vi\<close> (lines 157--159 and 233--235).\<close>

definition skinnedVertex :: "world \<Rightarrow> nat \<Rightarrow> vec3 option" where
  "skinnedVertex w vi =
     map_option (\<lambda>v. vrmMatrixWorld w (applyBoneTransform w vi v)) (js_nth (position w) vi)"

text \<open>
  One iteration of the mesh-vertex loop (line 156): find the nearest capsule and push the
  vertex into the pool of that capsule's bone. \<open>capsuleBoneIndex[bestCi]\<close> is \<open>undefined\<close>
  when \<open>bestCi\<close> is still \<open>undefined\<close> or past the end; \<open>.push\<close> on a missing pool throws.
\<close>

definition vertexStep :: "world \<Rightarrow> capsule list \<Rightarrow> int list \<Rightarrow> nat \<Rightarrow> pools \<Rightarrow> error + pools" where
  "vertexStep w capsules capsuleBoneIndex i m =
     (let (bestCi, evals) = scanCapsules w (skinnedVertex w i) Some capsules None 0;
          key = (case bestCi of None \<Rightarrow> None | Some ci \<Rightarrow> js_nth capsuleBoneIndex ci)
      in case key of
           None \<Rightarrow> Inl TypeError
         | Some b \<Rightarrow>
             (case m b of
                None \<Rightarrow> Inl TypeError
              | Some vs \<Rightarrow> Inr (m(b \<mapsto> vs @ [i]))))"

fun vertexLoop :: "world \<Rightarrow> capsule list \<Rightarrow> int list \<Rightarrow> nat list \<Rightarrow> pools \<Rightarrow> error + pools" where
  "vertexLoop w capsules cbi [] m = Inr m"
| "vertexLoop w capsules cbi (i # is) m =
     (case vertexStep w capsules cbi i m of
        Inl e \<Rightarrow> Inl e
      | Inr m' \<Rightarrow> vertexLoop w capsules cbi is m')"

text \<open>The per-bone vertex pools after the mesh-vertex loop.\<close>

definition boneVertexIndices :: "world \<Rightarrow> capsule list \<Rightarrow> int list \<Rightarrow> error + pools" where
  "boneVertexIndices w capsules capsuleBoneIndex =
     vertexLoop w capsules capsuleBoneIndex [0 ..< length (position w)]
       (emptyPools capsuleBoneIndex)"

text \<open>
  The candidate loop \<open>for (vi = 0; vi < vertexIndices.length; vi += skip)\<close> (line 231) with
  state \<open>(minDistance, bestVi)\<close>.
\<close>

definition candidateOffsets :: "nat \<Rightarrow> nat \<Rightarrow> nat list" where
  "candidateOffsets skip n = map (\<lambda>k. skip * k) [0 ..< (n + skip - 1) div skip]"

definition candidateStep ::
  "world \<Rightarrow> vec3 option \<Rightarrow> nat list \<Rightarrow> nat \<Rightarrow> jsdist \<times> nat \<Rightarrow> jsdist \<times> nat"
where
  "candidateStep w targetPoint vertexIndices vi st =
     (case st of (minDistance, bestVi) \<Rightarrow>
        let distance =
              (case (skinnedVertex w (vertexIndices ! vi), targetPoint) of
                 (Some sv, Some tp) \<Rightarrow> distanceTo w sv tp
               | _ \<Rightarrow> NaN)
        in if js_less distance minDistance then (distance, vi) else (minDistance, bestVi))"

definition nearestInPool :: "world \<Rightarrow> bool \<Rightarrow> vec3 option \<Rightarrow> nat list \<Rightarrow> nat option" where
  "nearestInPool w fast targetPoint vertexIndices =
     (let skip = (if fast then 3 else 1);
          (minDistance, bestVi) =
             fold (candidateStep w targetPoint vertexIndices)
               (candidateOffsets skip (length vertexIndices)) (PosInf, 0)
      in js_nth vertexIndices bestVi)"

text \<open>
  One iteration of the splat loop (line 219): \<open>gs.splatBoneIndices[i]\<close> selects the pool;
  reading \<open>.length\<close> of a missing pool throws.
\<close>

definition bindStep ::
  "world \<Rightarrow> gs \<Rightarrow> bool \<Rightarrow> pools \<Rightarrow> nat \<Rightarrow> nat option list \<Rightarrow> error + nat option list"
where
  "bindStep w g fast m i svi =
     (let targetPoint = map_option (gsSceneMatrixWorld w) (vec3_at (centers0 g) i);
          boneIndex = js_get (splatBoneIndices g) i
      in case poolOf m boneIndex of
           None \<Rightarrow> Inl TypeError
         | Some vertexIndices \<Rightarrow> Inr (svi @ [nearestInPool w fast targetPoint vertexIndices]))"

fun bindLoop ::
  "world \<Rightarrow> gs \<Rightarrow> bool \<Rightarrow> pools \<Rightarrow> nat list \<Rightarrow> nat option list \<Rightarrow> error + nat option list"
where
  "bindLoop w g fast m [] svi = Inr svi"
| "bindLoop w g fast m (i # is) svi =
     (case bindStep w g fast m i svi of
        Inl e \<Rightarrow> Inl e
      | Inr svi' \<Rightarrow> bindLoop w g fast m is svi')"

text \<open>
  The offset of splat \<open>i\<close> (lines 266--276): the splat centre taken through the splat scene's
  world matrix, the splat group's world matrix and the inverse of the mesh scene's world
  matrix, minus the bound vertex after \<open>applyBoneTransform\<close>. An \<open>undefined\<close> vertex index
  or a missing centre makes all three components \<open>NaN\<close> (\<^term>\<open>None\<close>).
\<close>

definition subVectors :: "vec3 \<Rightarrow> vec3 \<Rightarrow> vec3" where
  "subVectors a b =
     (case (a, b) of ((ax, ay, az), (bx, by, bz)) \<Rightarrow> (ax - bx, ay - by, az - bz))"

text \<open>The three numbers \<open>push(v.x, v.y, v.z)\<close> appends.\<close>

definition xyz :: "vec3 \<Rightarrow> real option list" where
  "xyz v = (case v of (x, y, z) \<Rightarrow> [Some x, Some y, Some z])"

definition meshLocalCenter :: "world \<Rightarrow> gs \<Rightarrow> nat \<Rightarrow> vec3 option" where
  "meshLocalCenter w g i =
     map_option (\<lambda>c. vrmMatrixWorldInv w (gsMatrixWorld w (gsSceneMatrixWorld w c)))
       (vec3_at (centers0 g) i)"

definition boneTransformedVertex :: "world \<Rightarrow> nat option \<Rightarrow> vec3 option" where
  "boneTransformedVertex w vertexIndex =
     (case vertexIndex of
        None \<Rightarrow> None
      | Some vi \<Rightarrow> map_option (applyBoneTransform w vi) (js_nth (position w) vi))"

definition relativePose :: "world \<Rightarrow> gs \<Rightarrow> nat option list \<Rightarrow> nat \<Rightarrow> real option list" where
  "relativePose w g svi i =
     (let vertexIndex = js_get svi i
      in case (meshLocalCenter w g i, boneTransformedVertex w vertexIndex) of
           (Some center0, Some vertex) \<Rightarrow> xyz (subVectors center0 vertex)
         | _ \<Rightarrow> [None, None, None])"

text \<open>
  The offset as the specification words it: the splat centre in mesh-local space minus
  the un-posed position of the bound vertex, that is, the position attribute itself.
\<close>

definition unposedRelativeOffset :: "world \<Rightarrow> gs \<Rightarrow> nat option list \<Rightarrow> nat \<Rightarrow> real option list" where
  "unposedRelativeOffset w g svi i =
     (case (meshLocalCenter w g i, js_get svi i) of
        (Some center0, Some vi) \<Rightarrow>
          (case js_nth (position w) vi of
             Some vertex \<Rightarrow> xyz (subVectors center0 vertex)
           | None \<Rightarrow> [None, None, None])
      | _ \<Rightarrow> [None, None, None])"

text \<open>
  \<open>assignSplatsToPoints(character, gs, capsules, capsuleBoneIndex, fast)\<close>. With at most
  three mesh vertices (skeleton-only mode) every splat gets vertex \<open>0\<close> and a zero offset.
\<close>

definition assignSplatsToPoints ::
  "world \<Rightarrow> gs \<Rightarrow> capsule list \<Rightarrow> int list \<Rightarrow> bool \<Rightarrow> error + gs"
where
  "assignSplatsToPoints w g capsules capsuleBoneIndex fast =
     (if length (position w) \<le> 3 then
        Inr (g\<lparr>splatVertexIndices := replicate (splatCount g) (Some 0),
               splatRelativePoses := replicate (splatCount g * 3) (Some 0)\<rparr>)
      else
        case boneVertexIndices w capsules capsuleBoneIndex of
          Inl e \<Rightarrow> Inl e
        | Inr m \<Rightarrow>
            (case bindLoop w g fast m [0 ..< splatCount g] [] of
               Inl e \<Rightarrow> Inl e
             | Inr svi \<Rightarrow>
                 Inr (g\<lparr>splatVertexIndices := svi,
                        splatRelativePoses :=
                          concat (map (relativePose w g svi) [0 ..< splatCount g])\<rparr>)))"

text \<open>
  The CPU path of \<open>preprocess2\<close> (lines 1288--1291): both stages, with \<open>fast\<close> left at its
  default.
\<close>

definition bindSplatsCPU :: "world \<Rightarrow> gs \<Rightarrow> capsule list \<Rightarrow> int list \<Rightarrow> error + gs" where
  "bindSplatsCPU w g capsules capsuleBoneIndex =
     (case assignSplatsToBones w g capsules capsuleBoneIndex False of
        Inl e \<Rightarrow> Inl e
      | Inr (g1, evals) \<Rightarrow> assignSplatsToPoints w g1 capsules capsuleBoneIndex False)"

text \<open>
  The bone-consistency relation between the pools and a binding of \<open>n\<close> splats: every
  splat has a bone, that bone has a pool, and the splat's vertex is a member of it.
\<close>

definition boneConsistent :: "pools \<Rightarrow> 'a binding_scheme \<Rightarrow> nat \<Rightarrow> bool" where
  "boneConsistent m b n \<longleftrightarrow>
     (\<forall>i < n. \<exists>bone vs v.
        js_get (splatBoneIndices b) i = Some bone \<and> m bone = Some vs \<and>
        js_get (splatVertexIndices b) i = Some v \<and> v \<in> set vs)"

section \<open>Container: \<open>GVRM.save\<close>, \<open>GVRM.sortSplatsByBones\<close>, \<open>GVRM.updateExtraData\<close>, \<open>GVRM.load\<close>\<close>

text \<open>
  \<open>extraData\<close>, the metadata record written to \<open>data.json\<close>. Besides the binding arrays it
  carries \<open>modelScale\<close>; \<open>boneOperations\<close>, \<open>gsQuaternion\<close> and \<open>gsPosition\<close> travel the
  same way and are read by no function modelled here.
\<close>

record extraData = binding +
  modelScale :: real

text \<open>
  The archive: \<open>model.ply\<close> as the list of its vertices (of any type \<open>'v\<close>) and \<open>data.json\<close>.
  \<open>JSON.stringify\<close> followed by \<open>JSON.parse\<close> gives back every finite number of an array
  and turns \<open>undefined\<close> and \<open>NaN\<close> into \<open>null\<close>; all three are \<^term>\<open>None\<close> here, so the text
  of \<open>data.json\<close> is represented by the record it parses to. \<open>model.vrm\<close> is not read by
  the functions below.
\<close>

record 'v archive =
  model_ply :: "'v list"
  data_json :: extraData

text \<open>\<open>GVRM.save\<close> (lines 285--299): the archive built from the splat cloud object.\<close>

definition save :: "gs \<Rightarrow> 'v list \<Rightarrow> real \<Rightarrow> 'v archive" where
  "save g plyBuffer scale =
     \<lparr>model_ply = plyBuffer,
      data_json = \<lparr>splatVertexIndices = splatVertexIndices g,
                   splatBoneIndices = splatBoneIndices g,
                   splatRelativePoses = splatRelativePoses g,
                   modelScale = scale\<rparr>\<rparr>"

text \<open>
  \<open>boneSceneMap\<close> is an object keyed by the bone index; \<open>undefined\<close>/\<open>null\<close> is a key like
  any other. \<open>sceneSplatIndices\<close> is an object whose keys are the group ids; they are
  created as \<open>0, 1, 2, \<dots>\<close> (\<open>sceneCount\<close> is the number of keys so far), so the object is
  the list of its values and \<open>Object.keys\<close> enumerates it in list order.
\<close>

type_synonym boneSceneMap = "int option \<Rightarrow> nat option"

text \<open>
  One iteration of the loop of \<open>sortSplatsByBones\<close> (line 497). For an unseen bone the new
  group \<open>sceneCount\<close> is created empty and \<open>i\<close> is pushed into it.
\<close>

definition sortStep ::
  "int option list \<Rightarrow> nat \<Rightarrow> nat list list \<times> boneSceneMap \<Rightarrow> nat list list \<times> boneSceneMap"
where
  "sortStep sbi i st =
     (case st of (sceneSplatIndices, bsm) \<Rightarrow>
        let boneIndex = js_get sbi i
        in case bsm boneIndex of
             None \<Rightarrow>
               (sceneSplatIndices @ [[i]], bsm(boneIndex \<mapsto> length sceneSplatIndices))
           | Some k \<Rightarrow>
               (sceneSplatIndices[k := sceneSplatIndices ! k @ [i]], bsm))"

definition groupByBones :: "int option list \<Rightarrow> nat list list \<times> boneSceneMap" where
  "groupByBones sbi = fold (sortStep sbi) [0 ..< length sbi] ([], Map.empty)"

text \<open>
  \<open>updateExtraData\<close> (line 518): the three arrays are rebuilt group by group.
\<close>

definition updateExtraData :: "extraData \<Rightarrow> nat list list \<Rightarrow> extraData" where
  "updateExtraData e sceneSplatIndices =
     (let order = concat sceneSplatIndices
      in e\<lparr>splatVertexIndices := map (js_get (splatVertexIndices e)) order,
           splatBoneIndices := map (js_get (splatBoneIndices e)) order,
           splatRelativePoses :=
             concat (map (\<lambda>splatIndex.
                       [js_get (splatRelativePoses e) (splatIndex * 3),
                        js_get (splatRelativePoses e) (splatIndex * 3 + 1),
                        js_get (splatRelativePoses e) (splatIndex * 3 + 2)]) order)\<rparr>)"

text \<open>
  \<open>sortSplatsByBones\<close> returns \<open>sceneSplatIndices\<close> and \<open>boneSceneMap\<close> and has rewritten
  \<open>extraData\<close> in place; the model returns the rewritten record as third component.
\<close>

definition sortSplatsByBones :: "extraData \<Rightarrow> nat list list \<times> boneSceneMap \<times> extraData" where
  "sortSplatsByBones e =
     (case groupByBones (splatBoneIndices e) of
        (sceneSplatIndices, bsm) \<Rightarrow>
          (sceneSplatIndices, bsm, updateExtraData e sceneSplatIndices))"

text \<open>
  \<open>PLYParser.splitPLY\<close>: one point cloud per group, \<open>indices.map(index => vertices[index])\<close>;
  \<open>createPLYFile\<close> reads \<open>vertex.rawData\<close> and throws on an \<open>undefined\<close> vertex.
\<close>

definition sceneVertices :: "'v list \<Rightarrow> nat list \<Rightarrow> error + 'v list" where
  "sceneVertices vertices indices =
     (if \<forall>index \<in> set indices. index < length vertices
      then Inr (map (\<lambda>index. vertices ! index) indices) else Inl TypeError)"

fun splitPLY :: "'v list \<Rightarrow> nat list list \<Rightarrow> error + 'v list list" where
  "splitPLY vertices [] = Inr []"
| "splitPLY vertices (indices # rest) =
     (case sceneVertices vertices indices of
        Inl e \<Rightarrow> Inl e
      | Inr sc \<Rightarrow>
          (case splitPLY vertices rest of
             Inl e \<Rightarrow> Inl e
           | Inr scs \<Rightarrow> Inr (sc # scs)))"

text \<open>
  The loaded asset: the binding arrays of the rewritten \<open>extraData\<close>, the splat scenes the
  viewer was given (one per group), the viewer's splat count (every splat of every scene)
  and \<open>boneSceneMap\<close>.
\<close>

record 'v gvrm = binding +
  scenes :: "'v list list"
  loadedSplatCount :: nat
  boneSceneMap :: boneSceneMap

text \<open>
  \<open>GVRM.load\<close> (lines 183--228). The fallback to the older field name \<open>relativePoses\<close>
  does not apply to an archive written by \<open>save\<close>, and the later clean-up loop only
  clears alpha values.
\<close>

definition load :: "'v archive \<Rightarrow> error + 'v gvrm" where
  "load a =
     (case sortSplatsByBones (data_json a) of
        (sceneSplatIndices, bsm, e) \<Rightarrow>
          (case splitPLY (model_ply a) sceneSplatIndices of
             Inl err \<Rightarrow> Inl err
           | Inr scs \<Rightarrow>
               Inr \<lparr>splatVertexIndices = splatVertexIndices e,
                    splatBoneIndices = splatBoneIndices e,
                    splatRelativePoses = splatRelativePoses e,
                    scenes = scs,
                    loadedSplatCount = length (concat scs),
                    boneSceneMap = bsm\<rparr>))"

text \<open>
  Index alignment of the binding arrays with a splat count (the relation of the archive
  layout: \<open>length/3 == n\<close> on JavaScript numbers holds exactly when the length is \<open>3 n\<close>).
\<close>

definition aligned :: "'a binding_scheme \<Rightarrow> nat \<Rightarrow> bool" where
  "aligned b n \<longleftrightarrow>
     length (splatBoneIndices b) = n \<and> length (splatVertexIndices b) = n \<and>
     length (splatRelativePoses b) = 3 * n"

text \<open>The distinct elements of a list in the order of their first appearance.\<close>

definition firstSeen :: "'a list \<Rightarrow> 'a list" where
  "firstSeen xs = rev (remdups (rev xs))"

text \<open>
  The order in which \<open>load\<close> lists the splats: group after group, as \<open>updateExtraData\<close>
  walks \<open>sceneSplatIndices\<close>.
\<close>

definition splatOrder :: "int option list \<Rightarrow> nat list" where
  "splatOrder sbi = concat (fst (groupByBones sbi))"

text \<open>
  The state of the grouping loop after \<open>n\<close> iterations: the groups are the index lists of
  the bones seen so far, in first-seen order, and \<open>boneSceneMap\<close> numbers exactly those.
\<close>

definition groupInv :: "int option list \<Rightarrow> nat \<Rightarrow> nat list list \<times> boneSceneMap \<Rightarrow> bool" where
  "groupInv sbi n st \<longleftrightarrow>
     (case st of (ssi, bsm) \<Rightarrow>
        let bs = firstSeen (take n sbi) in
        ssi = map (\<lambda>b. filter (\<lambda>i. sbi ! i = b) [0 ..< n]) bs \<and>
        (\<forall>k < length bs. bsm (bs ! k) = Some k) \<and>
        (\<forall>b. b \<notin> set bs \<longrightarrow> bsm b = None))"

section \<open>The retry policy of \<open>preprocess\<close>\<close>

text \<open>
  \<open>hints\<close> is \<open>null\<close> or an object. The fields that steer control flow are \<open>kneeHeight\<close> and
  \<open>retry\<close>, each possibly \<open>undefined\<close>; \<open>boneOperations\<close> is carried along and read by
  \<open>initVRM\<close> only.
\<close>

record hints =
  kneeHeight :: "real option"
  retry :: "int option"














section \<open>Floor and scale calibration: \<open>cleanSplats\<close>\<close>

text \<open>
  A vertex of the parsed point cloud is its position \<open>(x, y, z)\<close>; the raw bytes it
  carries are copied to the output files unchanged and read by no test. The cloud is
  stored upside down: the height of a vertex is \<open>-y\<close>.
\<close>

definition vx :: "vec3 \<Rightarrow> real" where
  "vx v = fst v"

definition vy :: "vec3 \<Rightarrow> real" where
  "vy v = fst (snd v)"

definition vz :: "vec3 \<Rightarrow> real" where
  "vz v = snd (snd v)"

text \<open>\<open>heights = {min, max}\<close> and \<open>centroid = {x, z}\<close>.\<close>

record heights =
  minH :: real
  maxH :: real

type_synonym centroid = "real \<times> real"

text \<open>\<open>Math.round\<close>: the nearest integer, halves rounded up.\<close>

definition jsRound :: "real \<Rightarrow> int" where
  "jsRound x = \<lfloor>x + 1 / 2\<rfloor>"

text \<open>\<open>Math.sqrt((vertex.x - centroid.x) ** 2 + (vertex.z - centroid.z) ** 2)\<close>.\<close>

definition distanceXZ :: "vec3 \<Rightarrow> centroid \<Rightarrow> real" where
  "distanceXZ v c = sqrt ((vx v - fst c)\<^sup>2 + (vz v - snd c)\<^sup>2)"

text \<open>The window of the floor search, \<open>const N = 5\<close>.\<close>

definition windowN :: nat where
  "windowN = 5"

text \<open>
  \<open>hints && hints.kneeHeight\<close>: the knee height in force, if any (\<open>undefined\<close> and \<open>0\<close> are
  falsy).
\<close>

definition kneeHint :: "hints option \<Rightarrow> real option" where
  "kneeHint hs =
     (case hs of
        None \<Rightarrow> None
      | Some h \<Rightarrow>
          (case kneeHeight h of None \<Rightarrow> None | Some k \<Rightarrow> if k = 0 then None else Some k))"

text \<open>
  Lines 314--324: the vertices of the search column, or every vertex within \<open>distY\<close> of
  the origin plane when the column is empty.
\<close>

definition radiusFilteredVertices ::
  "real \<Rightarrow> vec3 list \<Rightarrow> centroid \<Rightarrow> real \<Rightarrow> real \<Rightarrow> vec3 list"
where
  "radiusFilteredVertices distY vertices c distXZ thresh =
     (let rf = filter (\<lambda>v. \<bar>vy v\<bar> < distY \<and> distanceXZ v c < distXZ * thresh) vertices
      in if length rf = 0 then filter (\<lambda>v. \<bar>vy v\<bar> < distY) vertices else rf)"

text \<open>The 1 cm height bin of a vertex, and the number of vertices of a list in a bin.\<close>

definition binKey :: "vec3 \<Rightarrow> int" where
  "binKey v = jsRound (- vy v * 100)"

definition frequency :: "vec3 list \<Rightarrow> int \<Rightarrow> nat" where
  "frequency vs y = length (filter (\<lambda>v. binKey v = y) vs)"

text \<open>
  \<open>sortedYCoords\<close>: the entries of \<open>frequencyMap\<close>, whose keys are all bins from \<open>minY\<close> to
  \<open>maxY\<close>, in increasing key order.
\<close>

definition sortedYCoords :: "vec3 list \<Rightarrow> int \<Rightarrow> int \<Rightarrow> (int \<times> nat) list" where
  "sortedYCoords vs minY maxY = map (\<lambda>y. (y, frequency vs y)) [minY .. maxY]"

text \<open>The sum of the \<open>N\<close> counts from position \<open>start\<close> on (lines 358--366).\<close>

definition windowSum :: "(int \<times> nat) list \<Rightarrow> nat \<Rightarrow> nat" where
  "windowSum sortedY start = sum_list (map (\<lambda>j. snd (sortedY ! (start + j))) [0 ..< windowN])"

text \<open>
  One position of the floor search (lines 351--374); the state is \<open>(maxDifference,
  floorY)\<close> with \<^term>\<open>None\<close> for \<open>-Infinity\<close>.
\<close>

definition floorStep ::
  "real option \<Rightarrow> (int \<times> nat) list \<Rightarrow> nat \<Rightarrow> int option \<times> int \<Rightarrow> int option \<times> int"
where
  "floorStep knee sortedY i st =
     (case st of (maxDifference, floorY) \<Rightarrow>
        let currentY = fst (sortedY ! i)
        in if (case knee of None \<Rightarrow> False | Some k \<Rightarrow> real_of_int currentY / 100 > k) then st
           else
             let lowerSum = windowSum sortedY (i - windowN);
                 upperSum = windowSum sortedY i;
                 difference = int upperSum - int lowerSum
             in if (case maxDifference of None \<Rightarrow> True | Some m \<Rightarrow> difference > m)
                then (Some difference, fst (sortedY ! (i + 1)))
                else st)"

text \<open>
  Lines 382--389: the first bin more than 0.3 above the floor that holds fewer than
  0.025 percent of the column's vertices, or \<open>maxY - N\<close>.
\<close>

definition emptySpaceY :: "(int \<times> nat) list \<Rightarrow> int \<Rightarrow> nat \<Rightarrow> int \<Rightarrow> int" where
  "emptySpaceY sortedY floorY n maxY =
     (case find (\<lambda>(y, f). real_of_int y / 100 > real_of_int floorY / 100 + 3 / 10 \<and>
                          real f < real n * (25 / 100000)) sortedY of
        None \<Rightarrow> maxY - int windowN
      | Some (y, f) \<Rightarrow> y)"

text \<open>
  What one pass of \<open>calculateHeights\<close> measures before it decides: the heights, the number
  of vertices in the validation band and the number of those in the outer 2 cm ring.
\<close>

record measurement =
  measured :: heights
  inBand :: nat
  outerRing :: nat

definition measureHeights ::
  "hints option \<Rightarrow> real \<Rightarrow> vec3 list \<Rightarrow> centroid \<Rightarrow> real \<Rightarrow> real \<Rightarrow> error + measurement"
where
  "measureHeights hs distY vertices c distXZ thresh =
     (let rf = radiusFilteredVertices distY vertices c distXZ thresh;
          yCoords = map binKey rf
      in if length yCoords = 0 then Inl NoValidVertices
         else
           let minY = fold min yCoords (hd yCoords) - int windowN;
               maxY = fold max yCoords (hd yCoords) + int windowN;
               sortedY = sortedYCoords rf minY maxY;
               (maxDifference, floorY) =
                  fold (floorStep (kneeHint hs) sortedY)
                    [windowN ..< length sortedY - windowN + 1] (None, minY + int windowN)
           in if maxDifference = None then Inl MaxDifferenceIsMinusInfinity
              else
                let h = \<lparr>minH = real_of_int floorY / 100,
                         maxH = real_of_int (emptySpaceY sortedY floorY (length rf) maxY) / 100\<rparr>;
                    ymin = (maxH h - minH h) * (5 / 100) + minH h;
                    testFilteredVertices =
                      filter (\<lambda>v. distanceXZ v c < distXZ \<and> ymin < - vy v \<and> - vy v < maxH h)
                        vertices;
                    outerRingVertices =
                      filter (\<lambda>v. distanceXZ v c > distXZ - 2 / 100 \<and> distanceXZ v c \<le> distXZ)
                        testFilteredVertices
                in Inr \<lparr>measured = h, inBand = length testFilteredVertices,
                        outerRing = length outerRingVertices\<rparr>)"

text \<open>The acceptance test, the negation of the condition of line 419.\<close>

definition accepted :: "measurement \<Rightarrow> bool" where
  "accepted m \<longleftrightarrow>
     \<not> (inBand m < 10000 \<or> maxH (measured m) - minH (measured m) \<le> 3 / 10 \<or>
        (outerRing m > 10 \<and> real (outerRing m) / real (inBand m) > 25 / 100000))"

text \<open>
  \<open>calculateHeights\<close> (lines 295--435). \<open>hints\<close> and \<open>distY\<close> come from the enclosing
  \<open>cleanSplats\<close>; the arguments \<open>heights\<close> and \<open>phase\<close> only feed the search circle that is
  drawn and the log line.
\<close>

function calculateHeights ::
  "hints option \<Rightarrow> real \<Rightarrow> vec3 list \<Rightarrow> centroid \<Rightarrow> real \<Rightarrow> real \<Rightarrow> error + heights \<times> real"
where
  "calculateHeights hs distY vertices c distXZ thresh =
     (case measureHeights hs distY vertices c distXZ thresh of
        Inl e \<Rightarrow> Inl e
      | Inr m \<Rightarrow>
          if accepted m then Inr (measured m, distXZ)
          else if distXZ < 3 then calculateHeights hs distY vertices c (distXZ + 1 / 10) thresh
          else Inl (CouldNotFindTarget distXZ))"
  by pat_completeness auto
termination
proof (relation "measure (\<lambda>(hs, distY, vertices, c, distXZ, thresh). nat \<lceil>(3 - distXZ) * 10\<rceil>)")
  show "wf (measure (\<lambda>(hs, distY, vertices, c, distXZ, thresh). nat \<lceil>(3 - distXZ) * 10\<rceil>))"
    by simp
next
  fix hs :: "hints option" and distY :: real and vertices :: "vec3 list" and c :: centroid
    and distXZ thresh :: real and m :: measurement
  assume "distXZ < 3"
  have "\<lceil>(3 - (distXZ + 1 / 10)) * 10\<rceil> = \<lceil>(3 - distXZ) * 10\<rceil> - 1"
  proof -
    have "(3 - (distXZ + 1 / 10)) * 10 = (3 - distXZ) * 10 - 1"
      by (simp add: algebra_simps)
    then have "\<lceil>(3 - (distXZ + 1 / 10)) * 10\<rceil> = \<lceil>(3 - distXZ) * 10 - 1\<rceil>"
      by (rule arg_cong)
    then show ?thesis
      by (simp only: ceiling_diff_one)
  qed
  moreover have "0 < \<lceil>(3 - distXZ) * 10\<rceil>" using \<open>distXZ < 3\<close> by simp
  ultimately show "((hs, distY, vertices, c, distXZ + 1 / 10, thresh),
                    (hs, distY, vertices, c, distXZ, thresh))
      \<in> measure (\<lambda>(hs, distY, vertices, c, distXZ, thresh). nat \<lceil>(3 - distXZ) * 10\<rceil>)"
    by simp
qed

declare calculateHeights.simps [simp del]

text \<open>The number of times the radius can grow by 0.1 before it has reached 3.0.\<close>

definition retriesToCap :: "real \<Rightarrow> nat" where
  "retriesToCap distXZ = nat \<lceil>(3 - distXZ) * 10\<rceil>"

text \<open>
  \<open>calculateCentroidFeet\<close> and \<open>calculateCentroidHead\<close> (lines 437--502): the mean \<open>x\<close> and
  \<open>z\<close> of the vertices of a height band inside the search column. A missing \<open>centroid\<close>
  argument is \<open>{x: 0, z: 0}\<close>.
\<close>

definition bandCentroid ::
  "real \<Rightarrow> real \<Rightarrow> vec3 list \<Rightarrow> heights \<Rightarrow> centroid option \<Rightarrow> real \<Rightarrow> error + centroid"
where
  "bandCentroid lo hi vertices h centroid distXZ =
     (let c = (case centroid of None \<Rightarrow> (0, 0) | Some c \<Rightarrow> c);
          ymin = (maxH h - minH h) * lo + minH h;
          ymax = (maxH h - minH h) * hi + minH h;
          vertices' = filter (\<lambda>v. distanceXZ v c < distXZ \<and> ymin < - vy v \<and> - vy v < ymax) vertices
      in if length vertices' = 0 then Inl NoVerticesFound
         else Inr (sum_list (map vx vertices') / real (length vertices'),
                   sum_list (map vz vertices') / real (length vertices')))"

definition calculateCentroidFeet ::
  "vec3 list \<Rightarrow> heights \<Rightarrow> centroid option \<Rightarrow> real \<Rightarrow> error + centroid"
where
  "calculateCentroidFeet = bandCentroid (1 / 10) (2 / 10)"

definition calculateCentroidHead ::
  "vec3 list \<Rightarrow> heights \<Rightarrow> centroid option \<Rightarrow> real \<Rightarrow> error + centroid"
where
  "calculateCentroidHead = bandCentroid (9 / 10) 1"

text \<open>
  \<open>detectShoes\<close> (lines 505--590) works on a grid of 1 cm cells whose keys run from \<open>-51\<close>
  to \<open>51\<close> in \<open>x\<close> and in \<open>z\<close>, filled from the vertices below \<open>ymin\<close> that lie within 0.5 of
  the vertical axis. Such a vertex has both keys between \<open>-50\<close> and \<open>50\<close>, so every cell
  that is read exists.
\<close>

definition originDistance :: "vec3 \<Rightarrow> real" where
  "originDistance v = sqrt (vx v * vx v + vz v * vz v)"

definition gridKey :: "vec3 \<Rightarrow> int \<times> int" where
  "gridKey v = (jsRound (vx v * 100), jsRound (vz v * 100))"

definition gridCells :: "(int \<times> int) list" where
  "gridCells = concat (map (\<lambda>x. map (\<lambda>z. (x, z)) [- 51 .. 51]) [- 51 .. 51])"

definition inGrid :: "int \<times> int \<Rightarrow> bool" where
  "inGrid k \<longleftrightarrow> - 51 \<le> fst k \<and> fst k \<le> 51 \<and> - 51 \<le> snd k \<and> snd k \<le> 51"

definition cellCount :: "vec3 list \<Rightarrow> int \<times> int \<Rightarrow> nat" where
  "cellCount vs k = length (filter (\<lambda>v. gridKey v = k) vs)"

definition cellSum :: "vec3 list \<Rightarrow> heights \<Rightarrow> int \<times> int \<Rightarrow> real" where
  "cellSum vs h k = sum_list (map (\<lambda>v. - vy v - minH h) (filter (\<lambda>v. gridKey v = k) vs))"

definition cellMean :: "vec3 list \<Rightarrow> heights \<Rightarrow> int \<times> int \<Rightarrow> real" where
  "cellMean vs h k = (if cellCount vs k = 0 then 0 else cellSum vs h k / real (cellCount vs k))"

definition meanCount :: "vec3 list \<Rightarrow> real" where
  "meanCount vs = real (sum_list (map (cellCount vs) gridCells)) / real (length gridCells)"

text \<open>Line 542: the first marking of the cells.\<close>

definition keepInitial :: "vec3 list \<Rightarrow> heights \<Rightarrow> int \<times> int \<Rightarrow> bool" where
  "keepInitial vs h k \<longleftrightarrow> real (cellCount vs k) > meanCount vs \<and> cellMean vs h k > 1 / 100"

text \<open>
  Lines 546--570: the cells are visited in key order and a kept cell with at least five
  of its eight neighbours missing or not kept is demoted at once, so that later cells
  see the demotion.
\<close>

definition neighbours :: "(int \<times> int) list" where
  "neighbours = [(- 1, - 1), (- 1, 0), (- 1, 1), (0, - 1), (0, 1), (1, - 1), (1, 0), (1, 1)]"

definition demoteStep :: "int \<times> int \<Rightarrow> (int \<times> int \<Rightarrow> bool) \<Rightarrow> (int \<times> int \<Rightarrow> bool)" where
  "demoteStep k keep =
     (if \<not> keep k then keep
      else
        let n = length (filter (\<lambda>d. \<not> inGrid (fst k + fst d, snd k + snd d) \<or>
                                     \<not> keep (fst k + fst d, snd k + snd d)) neighbours)
        in if n \<ge> 5 then keep(k := False) else keep)"

definition shoeKeep :: "vec3 list \<Rightarrow> heights \<Rightarrow> int \<times> int \<Rightarrow> bool" where
  "shoeKeep vs h = fold demoteStep gridCells (keepInitial vs h)"

text \<open>
  \<open>detectShoes\<close> returns \<open>filteredVertices3\<close> (kept) and \<open>filteredVertices4\<close> (discarded). Its
  third argument \<open>centroid\<close> is used in a comment only.
\<close>

definition detectShoes :: "vec3 list \<Rightarrow> heights \<Rightarrow> vec3 list \<times> vec3 list" where
  "detectShoes filteredVertices1 h =
     (let ymin = (maxH h - minH h) * (5 / 100) + minH h;
          vertices = filter (\<lambda>v. - vy v < ymin \<and> originDistance v < 1 / 2) filteredVertices1;
          keep = shoeKeep vertices h;
          filteredVertices3 =
            filter (\<lambda>v. - vy v \<ge> ymin \<or>
                         (- vy v \<ge> minH h \<and> - vy v \<le> ymin \<and> originDistance v < 1 / 2 \<and>
                          keep (gridKey v))) filteredVertices1;
          filteredVertices4 =
            filter (\<lambda>v. - vy v < minH h \<or>
                         (- vy v < ymin \<and> originDistance v \<ge> 1 / 2) \<or>
                         (- vy v < ymin \<and> originDistance v < 1 / 2 \<and> \<not> keep (gridKey v)))
              filteredVertices1
      in (filteredVertices3, filteredVertices4))"

text \<open>
  Lines 620--627: the vertices inside the search column and within half a unit of the
  height band, and all the others.
\<close>

definition filteredVertices6 :: "vec3 list \<Rightarrow> centroid \<Rightarrow> real \<Rightarrow> heights \<Rightarrow> vec3 list" where
  "filteredVertices6 vertices c distXZ h =
     filter (\<lambda>v. distanceXZ v c \<le> distXZ \<and> - vy v \<ge> minH h - 1 / 2 \<and> - vy v \<le> maxH h + 1 / 2)
       vertices"

definition filteredVertices7 :: "vec3 list \<Rightarrow> centroid \<Rightarrow> real \<Rightarrow> heights \<Rightarrow> vec3 list" where
  "filteredVertices7 vertices c distXZ h =
     filter (\<lambda>v. distanceXZ v c > distXZ \<or> - vy v < minH h - 1 / 2 \<or> - vy v > maxH h + 1 / 2)
       vertices"

text \<open>
  Lines 632--633: the two point clouds that are written out, given the column and the
  heights of the second measurement (\<open>c\<close>, \<open>distXZ\<close>, \<open>h2\<close>) and the heights of the third
  (\<open>h3\<close>): \<open>filteredVertices3\<close>, and \<open>filteredVertices5 = filteredVertices7.concat(filteredVertices4)\<close>.
\<close>

definition foregroundBackground ::
  "vec3 list \<Rightarrow> centroid \<Rightarrow> real \<Rightarrow> heights \<Rightarrow> heights \<Rightarrow> vec3 list \<times> vec3 list"
where
  "foregroundBackground vertices c distXZ h2 h3 =
     (case detectShoes (filteredVertices6 vertices c distXZ h2) h3 of
        (filteredVertices3, filteredVertices4) \<Rightarrow>
          (filteredVertices3, filteredVertices7 vertices c distXZ h2 @ filteredVertices4))"

text \<open>Sequencing of steps that may throw.\<close>

definition thenE :: "error + 'a \<Rightarrow> ('a \<Rightarrow> error + 'b) \<Rightarrow> error + 'b" where
  "thenE r f = (case r of Inl e \<Rightarrow> Inl e | Inr x \<Rightarrow> f x)"

text \<open>
  What \<open>cleanSplats\<close> returns: the vertices of the two files behind \<open>urls\<close>, and the
  calibration result.
\<close>

record cleaned =
  foreground :: "vec3 list"
  background :: "vec3 list"
  cleanCentroid :: centroid
  cleanHeights :: heights
  cleanDistXZ :: real
  cleanCentroidHead :: centroid

text \<open>
  The block of \<open>cleanSplats\<close> between lines 605 and 648, on the parsed vertices.
  \<open>preprocess\<close> leaves \<open>distY\<close> at its default \<open>2.0\<close>.
\<close>

definition cleanSplats :: "hints option \<Rightarrow> real \<Rightarrow> vec3 list \<Rightarrow> error + cleaned" where
  "cleanSplats hs distY vertices =
     (let initialCentroid = (sum_list (map vx vertices) / real (length vertices),
                             sum_list (map vz vertices) / real (length vertices))
      in
      thenE (calculateHeights hs distY vertices initialCentroid (3 / 10) 1) (\<lambda>(h1, d1).
      thenE (calculateCentroidFeet vertices h1 None d1) (\<lambda>c1.
      thenE (calculateHeights hs distY vertices c1 (3 / 10) 1) (\<lambda>(h2, d2).
      thenE (calculateCentroidFeet vertices h2 (Some c1) d2) (\<lambda>c2.
      thenE (calculateCentroidFeet (filteredVertices6 vertices c2 d2 h2) h2 (Some c2) d2) (\<lambda>c3.
      thenE (calculateHeights hs distY (filteredVertices6 vertices c2 d2 h2) c3 d2 (1 / 2)) (\<lambda>(h3, d3).
      case foregroundBackground vertices c2 d2 h2 h3 of
        (filteredVertices3, filteredVertices5) \<Rightarrow>
          thenE (calculateCentroidHead filteredVertices3 h3 (Some c3) d3) (\<lambda>centroidHead.
          Inr \<lparr>foreground = filteredVertices3, background = filteredVertices5,
               cleanCentroid = c3, cleanHeights = h3, cleanDistXZ = d3,
               cleanCentroidHead = centroidHead\<rparr>))))))))"

section \<open>Example scenes\<close>

text \<open>
  Two capsules of one triangle each, for bones 5 and 7, lying at \<open>x = 0\<close> and \<open>x = 10\<close>;
  the distance to a capsule is the distance along \<open>x\<close>, the distance between points is
  the sum of the coordinate differences, the bone transform lifts every vertex by one
  unit along \<open>y\<close> and all world matrices are the identity.
\<close>

definition exampleCapsules :: "capsule list" where
  "exampleCapsules = [\<lparr>index_count = Some 3\<rparr>, \<lparr>index_count = Some 3\<rparr>]"

definition exampleCapsuleBoneIndex :: "int list" where
  "exampleCapsuleBoneIndex = [5, 7]"

definition exampleWorld :: "vec3 list \<Rightarrow> world" where
  "exampleWorld pos =
     \<lparr>position = pos,
      applyBoneTransform = (\<lambda>i v. case v of (x, y, z) \<Rightarrow> (x, y + 1, z)),
      vrmMatrixWorld = (\<lambda>v. v),
      vrmMatrixWorldInv = (\<lambda>v. v),
      gsSceneMatrixWorld = (\<lambda>v. v),
      gsMatrixWorld = (\<lambda>v. v),
      triangleDistance =
        (\<lambda>p ci ii. case p of None \<Rightarrow> NaN | Some (x, y, z) \<Rightarrow> Fin \<bar>x - 10 * real ci\<bar>),
      distanceTo =
        (\<lambda>a b. case (a, b) of ((ax, ay, az), (bx, by, bz)) \<Rightarrow>
                  Fin (\<bar>ax - bx\<bar> + \<bar>ay - by\<bar> + \<bar>az - bz\<bar>))\<rparr>"

text \<open>An unbound splat cloud with the given centres.\<close>

definition exampleGs :: "vec3 list \<Rightarrow> gs" where
  "exampleGs cs =
     \<lparr>splatVertexIndices = [], splatBoneIndices = [], splatRelativePoses = [],
      splatCount = length cs,
      centers0 = concat (map (\<lambda>c. case c of (x, y, z) \<Rightarrow> [x, y, z]) cs),
      colors = concat (map (\<lambda>c. [0, 0, 0, 1]) cs)\<rparr>"

text \<open>A mesh with two vertices near each capsule, and one with all four near the first.\<close>

definition exampleMesh :: "vec3 list" where
  "exampleMesh = [(0, 0, 0), (1, 0, 0), (10, 0, 0), (11, 0, 0)]"

definition clusteredMesh :: "vec3 list" where
  "clusteredMesh = [(0, 0, 0), (1, 0, 0), (2, 0, 0), (3, 0, 0)]"

text \<open>The example cloud of two splats after both binding stages.\<close>

definition exampleBoundGs :: gs where
  "exampleBoundGs =
     \<lparr>splatVertexIndices = [Some 1, Some 3], splatBoneIndices = [Some 5, Some 7],
      splatRelativePoses = [Some 1, Some (- 1), Some 0, Some 1, Some (- 1), Some 0],
      splatCount = 2, centers0 = [2, 0, 0, 12, 0, 0],
      colors = [255, 222, 62, 1, 138, 119, 199, 1]\<rparr>"


text \<open>Metadata whose bone indices are \<open>[5, 3, 5]\<close>.\<close>

definition groupingExample :: extraData where
  "groupingExample =
     \<lparr>splatVertexIndices = [Some 7, Some 8, Some 9],
      splatBoneIndices = [Some 5, Some 3, Some 5],
      splatRelativePoses = [],
      modelScale = 1\<rparr>"






section \<open>Verification\<close>

subsection \<open>Evaluation of index ranges\<close>

lemma upt_0_numeral: "[0 ..< numeral n] = [0 ..< pred_numeral n] @ [pred_numeral n]"
  by (simp add: numeral_eq_Suc)

lemma upt_0_1: "[0 ..< 1] = [0]"
  by simp

lemmas upt_eval = upt_0_numeral upt_0_1

lemmas example_defs = exampleCapsules_def exampleCapsuleBoneIndex_def exampleWorld_def
  exampleGs_def exampleMesh_def clusteredMesh_def

lemmas eval_defs = assignSplatsToBones_def bonesStep_def scanCapsules_def scanCapsule_def
  scanTriangle_def triangleOffsets_def paint_def palette_def js_nth_def js_get_def vec3_at_def
  Let_def assignSplatsToPoints_def boneVertexIndices_def vertexStep_def emptyPools_def
  poolOf_def skinnedVertex_def bindStep_def nearestInPool_def candidateStep_def
  candidateOffsets_def relativePose_def xyz_def meshLocalCenter_def boneTransformedVertex_def
  subVectors_def bindSplatsCPU_def

subsection \<open>The splat classifier on an empty capsule set\<close>

lemma paint_0: "\<exists>cols'. paint cols i 0 = Inr cols'"
  by (simp add: paint_def js_nth_def palette_def)

lemma defaultBoneLoop_result:
  "\<exists>cols'. defaultBoneLoop is (sbi, cols) = Inr (sbi @ replicate (length is) (Some 0), cols')"
proof (induction "is" arbitrary: sbi cols)
  case Nil
  then show ?case by simp
next
  case (Cons i "is")
  obtain c1 where c1: "paint cols i 0 = Inr c1" using paint_0 by blast
  from Cons.IH[of "sbi @ [Some 0]" c1] obtain c2 where
    "defaultBoneLoop is (sbi @ [Some 0], c1) = Inr ((sbi @ [Some 0]) @ replicate (length is) (Some 0), c2)"
    by blast
  then show ?case using c1 by (simp add: replicate_app_Cons_same)
qed

text \<open>
  Claim C9. With an empty capsule set, \<open>assignSplatsToBones\<close> returns normally whatever
  the cloud, the bone table and the \<open>fast\<close> flag are; \<open>splatBoneIndices\<close> is then the array
  of \<open>splatCount\<close> zeros, only the colours change besides, and no point-to-triangle
  distance has been evaluated.
\<close>

theorem assignSplatsToBones_empty_capsules:
  "\<exists>cols'. assignSplatsToBones w g [] capsuleBoneIndex fast =
     Inr (g\<lparr>splatBoneIndices := replicate (splatCount g) (Some 0), colors := cols'\<rparr>, 0)"
proof -
  obtain c where "defaultBoneLoop [0 ..< splatCount g] ([], colors g) =
      Inr ([] @ replicate (length [0 ..< splatCount g]) (Some 0), c)"
    using defaultBoneLoop_result by blast
  then show ?thesis by (auto simp add: assignSplatsToBones_def)
qed

subsection \<open>Grouping splats by bone\<close>

lemma firstSeen_snoc:
  "firstSeen (xs @ [x]) = (if x \<in> set xs then firstSeen xs else firstSeen xs @ [x])"
  by (simp add: firstSeen_def)

lemma set_firstSeen: "set (firstSeen xs) = set xs"
  by (simp add: firstSeen_def)

lemma distinct_firstSeen: "distinct (firstSeen xs)"
  by (simp add: firstSeen_def)

lemma groupInv_0: "groupInv sbi 0 ([], Map.empty)"
  by (simp add: groupInv_def firstSeen_def)

lemma groupInv_step:
  assumes inv: "groupInv sbi n st" and n: "n < length sbi"
  shows "groupInv sbi (Suc n) (sortStep sbi n st)"
proof -
  obtain ssi bsm where st: "st = (ssi, bsm)" by (cases st)
  define bs where "bs = firstSeen (take n sbi)"
  define b where "b = sbi ! n"
  have ssi: "ssi = map (\<lambda>b. filter (\<lambda>i. sbi ! i = b) [0 ..< n]) bs"
    and bsmS: "\<And>k. k < length bs \<Longrightarrow> bsm (bs ! k) = Some k"
    and bsmN: "\<And>c. c \<notin> set bs \<Longrightarrow> bsm c = None"
    using inv by (simp_all add: groupInv_def st bs_def Let_def)
  have tk: "take (Suc n) sbi = take n sbi @ [b]"
    using n by (simp add: take_Suc_conv_app_nth b_def)
  have dist: "distinct bs" by (simp add: bs_def distinct_firstSeen)
  have setbs: "set bs = set (take n sbi)" by (simp add: bs_def set_firstSeen)
  have get: "js_get sbi n = b" using n by (simp add: js_get_def b_def)
  show ?thesis
  proof (cases "b \<in> set bs")
    case True
    then obtain k where k: "k < length bs" "bs ! k = b" by (auto simp: in_set_conv_nth)
    have bk: "bsm b = Some k" using bsmS[OF k(1)] k(2) by simp
    have fs: "firstSeen (take (Suc n) sbi) = bs"
      using True setbs by (simp add: tk firstSeen_snoc bs_def)
    have step: "sortStep sbi n st = (ssi[k := ssi ! k @ [n]], bsm)"
      by (simp add: sortStep_def st get bk)
    have "ssi[k := ssi ! k @ [n]] = map (\<lambda>b. filter (\<lambda>i. sbi ! i = b) [0 ..< Suc n]) bs"
    proof (rule nth_equalityI)
      show "length (ssi[k := ssi ! k @ [n]]) = length (map (\<lambda>b. filter (\<lambda>i. sbi ! i = b) [0 ..< Suc n]) bs)"
        by (simp add: ssi)
    next
      fix j assume "j < length (ssi[k := ssi ! k @ [n]])"
      then have j: "j < length bs" by (simp add: ssi)
      show "ssi[k := ssi ! k @ [n]] ! j = map (\<lambda>b. filter (\<lambda>i. sbi ! i = b) [0 ..< Suc n]) bs ! j"
      proof (cases "j = k")
        case True
        then show ?thesis using k by (simp add: ssi b_def)
      next
        case False
        then have "bs ! j \<noteq> b" using dist j k by (auto simp: distinct_conv_nth)
        then show ?thesis using False j by (simp add: ssi b_def)
      qed
    qed
    then show ?thesis using bsmS bsmN
      by (simp add: groupInv_def step fs Let_def)
  next
    case False
    have bk: "bsm b = None" using bsmN[OF False] .
    have fs: "firstSeen (take (Suc n) sbi) = bs @ [b]"
      using False setbs by (simp add: tk firstSeen_snoc bs_def)
    have step: "sortStep sbi n st = (ssi @ [[n]], bsm(b \<mapsto> length ssi))"
      by (simp add: sortStep_def st get bk)
    have nob: "\<And>i. i < n \<Longrightarrow> sbi ! i \<noteq> b"
    proof -
      fix i assume "i < n"
      then have "sbi ! i \<in> set (take n sbi)" using n by (auto simp: in_set_conv_nth)
      then show "sbi ! i \<noteq> b" using False setbs by auto
    qed
    have f1: "filter (\<lambda>i. sbi ! i = b) [0 ..< Suc n] = [n]"
      using nob by (simp add: b_def filter_empty_conv)
    have f2: "\<And>c. c \<in> set bs \<Longrightarrow> filter (\<lambda>i. sbi ! i = c) [0 ..< Suc n] = filter (\<lambda>i. sbi ! i = c) [0 ..< n]"
      using False by (auto simp: b_def)
    have e1: "ssi @ [[n]] = map (\<lambda>b. filter (\<lambda>i. sbi ! i = b) [0 ..< Suc n]) (bs @ [b])"
      using f1 f2 by (simp add: ssi)
    have len: "length ssi = length bs" by (simp add: ssi)
    have e2: "\<forall>k < length (bs @ [b]). (bsm(b \<mapsto> length ssi)) ((bs @ [b]) ! k) = Some k"
    proof (intro allI impI)
      fix k assume "k < length (bs @ [b])"
      then consider "k < length bs" | "k = length bs" by force
      then show "(bsm(b \<mapsto> length ssi)) ((bs @ [b]) ! k) = Some k"
      proof cases
        case 1
        then have "bs ! k \<noteq> b" using False by auto
        then show ?thesis using 1 bsmS by (simp add: nth_append)
      next
        case 2
        then show ?thesis by (simp add: len)
      qed
    qed
    have e3: "\<forall>c. c \<notin> set (bs @ [b]) \<longrightarrow> (bsm(b \<mapsto> length ssi)) c = None"
      using bsmN by simp
    show ?thesis
      unfolding groupInv_def step fs Let_def prod.case using e1 e2 e3 by blast
  qed
qed

lemma groupInv_fold:
  "n \<le> length sbi \<Longrightarrow> groupInv sbi n (fold (sortStep sbi) [0 ..< n] ([], Map.empty))"
proof (induction n)
  case 0
  then show ?case by (simp add: groupInv_0)
next
  case (Suc n)
  then show ?case using groupInv_step[of sbi n] by simp
qed

lemma groupByBones_inv: "groupInv sbi (length sbi) (groupByBones sbi)"
  unfolding groupByBones_def by (rule groupInv_fold) simp

lemma mset_concat_filters:
  "distinct bs \<Longrightarrow>
   mset (concat (map (\<lambda>b. filter (\<lambda>i. f i = b) xs) bs)) = mset (filter (\<lambda>i. f i \<in> set bs) xs)"
proof (induction bs)
  case Nil
  then show ?case by simp
next
  case (Cons b bs)
  have "mset (filter (\<lambda>i. f i = b) xs) + mset (filter (\<lambda>i. f i \<in> set bs) xs)
        = mset (filter (\<lambda>i. f i \<in> set (b # bs)) xs)"
    using Cons.prems by (induction xs) auto
  then show ?case using Cons by simp
qed

lemma groups_partition:
  "mset (concat (map (\<lambda>b. filter (\<lambda>i. sbi ! i = b) [0 ..< length sbi]) (firstSeen sbi)))
     = mset [0 ..< length sbi]"
proof -
  have "filter (\<lambda>i. sbi ! i \<in> set (firstSeen sbi)) [0 ..< length sbi] = [0 ..< length sbi]"
    by (simp add: set_firstSeen filter_id_conv)
  then show ?thesis
    using mset_concat_filters[OF distinct_firstSeen, of "\<lambda>i. sbi ! i" "[0 ..< length sbi]" sbi]
    by simp
qed

lemma groupByBones_char:
  "groupByBones sbi = (ssi, bsm) \<Longrightarrow>
     ssi = map (\<lambda>b. filter (\<lambda>i. sbi ! i = b) [0 ..< length sbi]) (firstSeen sbi) \<and>
     (\<forall>k < length (firstSeen sbi). bsm (firstSeen sbi ! k) = Some k) \<and>
     (\<forall>b. b \<notin> set sbi \<longrightarrow> bsm b = None)"
  using groupByBones_inv[of sbi] by (simp add: groupInv_def Let_def set_firstSeen)

text \<open>
  Claim C6. \<open>sortSplatsByBones\<close> is a function of the \<open>splatBoneIndices\<close> array alone. With
  \<open>bs\<close> the distinct bone indices in order of first appearance (\<open>K\<close> of them), the group
  ids are \<open>0..K-1\<close>: the \<open>k\<close>-th bone of \<open>bs\<close> is mapped to \<open>k\<close> and no other key is mapped;
  group \<open>k\<close> lists, in increasing order, exactly the splat indices whose bone is the
  \<open>k\<close>-th of \<open>bs\<close>; every splat index \<open>0..n-1\<close> occurs exactly once over all groups; and any
  input with the same \<open>splatBoneIndices\<close> gives the same groups and the same map.
\<close>

theorem sortSplatsByBones_groups:
  "case sortSplatsByBones e of
     (sceneSplatIndices, bsm, e') \<Rightarrow>
       let sbi = splatBoneIndices e; bs = firstSeen sbi in
         length sceneSplatIndices = length bs \<and> distinct bs \<and> set bs = set sbi \<and>
         (\<forall>k < length bs. bsm (bs ! k) = Some k) \<and>
         (\<forall>b. b \<notin> set sbi \<longrightarrow> bsm b = None) \<and>
         (\<forall>k < length bs.
            sceneSplatIndices ! k = filter (\<lambda>i. sbi ! i = bs ! k) [0 ..< length sbi]) \<and>
         (\<forall>g \<in> set sceneSplatIndices. sorted_wrt (<) g) \<and>
         mset (concat sceneSplatIndices) = mset [0 ..< length sbi] \<and>
         (\<forall>e2. splatBoneIndices e2 = sbi \<longrightarrow>
            fst (sortSplatsByBones e2) = sceneSplatIndices \<and>
            fst (snd (sortSplatsByBones e2)) = bsm)"
proof -
  obtain ssi bsm where g: "groupByBones (splatBoneIndices e) = (ssi, bsm)"
    by (cases "groupByBones (splatBoneIndices e)")
  note c = groupByBones_char[OF g]
  have s: "sortSplatsByBones e = (ssi, bsm, updateExtraData e ssi)"
    by (simp add: sortSplatsByBones_def g)
  have ssi: "ssi = map (\<lambda>b. filter (\<lambda>i. splatBoneIndices e ! i = b) [0 ..< length (splatBoneIndices e)])
                    (firstSeen (splatBoneIndices e))"
    using c by blast
  have sorted: "\<forall>g \<in> set ssi. sorted_wrt (<) g"
    by (subst ssi) (auto intro: sorted_wrt_filter)
  have part: "mset (concat ssi) = mset [0 ..< length (splatBoneIndices e)]"
    by (subst ssi) (rule groups_partition)
  have nth: "\<forall>k < length (firstSeen (splatBoneIndices e)).
      ssi ! k = filter (\<lambda>i. splatBoneIndices e ! i = firstSeen (splatBoneIndices e) ! k)
                  [0 ..< length (splatBoneIndices e)]"
    by (subst ssi) simp
  have len: "length ssi = length (firstSeen (splatBoneIndices e))"
    by (subst ssi) simp
  have det: "\<forall>e2. splatBoneIndices e2 = splatBoneIndices e \<longrightarrow>
      fst (sortSplatsByBones e2) = ssi \<and> fst (snd (sortSplatsByBones e2)) = bsm"
    by (simp add: sortSplatsByBones_def g)
  show ?thesis
    unfolding s prod.case Let_def
    using len distinct_firstSeen[of "splatBoneIndices e"] set_firstSeen[of "splatBoneIndices e"]
      c sorted part nth det by blast
qed

text \<open>
  On the bone indices \<open>[5, 3, 5]\<close> the bones seen are \<open>[5, 3]\<close>, the groups are \<open>[0, 2]\<close> and
  \<open>[1]\<close>, and bone 5 gets group 0, bone 3 group 1.
\<close>

theorem sortSplatsByBones_groups_witness:
  "firstSeen (splatBoneIndices groupingExample) = [Some 5, Some 3] \<and>
   fst (sortSplatsByBones groupingExample) = [[0, 2], [1]] \<and>
   fst (snd (sortSplatsByBones groupingExample)) (Some 5) = Some 0 \<and>
   fst (snd (sortSplatsByBones groupingExample)) (Some 3) = Some 1 \<and>
   fst (snd (sortSplatsByBones groupingExample)) (Some 4) = None"
  using sortSplatsByBones_groups[of groupingExample]
  by (simp add: groupingExample_def firstSeen_def sortSplatsByBones_def groupByBones_def
      sortStep_def js_get_def updateExtraData_def)

subsection \<open>Lengths of the binding arrays\<close>

lemma bonesLoop_length:
  "bonesLoop w c0 caps cbi fast is (b, sbi, cols, ev) = Inr (b', sbi', cols', ev')
   \<Longrightarrow> length sbi' = length sbi + length is"
proof (induction "is" arbitrary: b sbi cols ev)
  case Nil
  then show ?case by simp
next
  case (Cons i "is")
  from Cons.prems obtain b1 sbi1 cols1 ev1 where
    st: "bonesStep w c0 caps cbi fast i (b, sbi, cols, ev) = Inr (b1, sbi1, cols1, ev1)"
    and rest: "bonesLoop w c0 caps cbi fast is (b1, sbi1, cols1, ev1) = Inr (b', sbi', cols', ev')"
    by (auto split: sum.splits)
  have "length sbi1 = Suc (length sbi)"
    using st by (auto simp: bonesStep_def Let_def split: if_splits sum.splits prod.splits)
  then show ?case using Cons.IH[OF rest] by simp
qed

lemma assignSplatsToBones_fields:
  assumes "assignSplatsToBones w g caps cbi fast = Inr (g', ev)"
  shows "length (splatBoneIndices g') = splatCount g" "splatCount g' = splatCount g"
    "centers0 g' = centers0 g"
proof -
  have "length (splatBoneIndices g') = splatCount g \<and> splatCount g' = splatCount g \<and> centers0 g' = centers0 g"
  proof (cases "length caps = 0")
    case True
    obtain c where "defaultBoneLoop [0 ..< splatCount g] ([], colors g) =
        Inr ([] @ replicate (length [0 ..< splatCount g]) (Some 0), c)"
      using defaultBoneLoop_result by blast
    then show ?thesis using assms True by (auto simp: assignSplatsToBones_def)
  next
    case False
    then obtain b sbi cols where
      l: "bonesLoop w (centers0 g) caps cbi fast [0 ..< splatCount g] (0, [], colors g, 0) = Inr (b, sbi, cols, ev)"
      and g': "g' = g\<lparr>splatBoneIndices := sbi, colors := cols\<rparr>"
      using assms by (auto simp: assignSplatsToBones_def split: sum.splits)
    from bonesLoop_length[OF l] show ?thesis by (simp add: g')
  qed
  then show "length (splatBoneIndices g') = splatCount g" "splatCount g' = splatCount g"
    "centers0 g' = centers0 g" by simp_all
qed

lemma bindLoop_length:
  "bindLoop w g fast m is svi = Inr svi' \<Longrightarrow> length svi' = length svi + length is"
proof (induction "is" arbitrary: svi)
  case Nil
  then show ?case by simp
next
  case (Cons i "is")
  from Cons.prems obtain svi1 where
    st: "bindStep w g fast m i svi = Inr svi1" and rest: "bindLoop w g fast m is svi1 = Inr svi'"
    by (auto split: sum.splits)
  have "length svi1 = Suc (length svi)"
    using st by (auto simp: bindStep_def Let_def split: option.splits)
  then show ?case using Cons.IH[OF rest] by simp
qed

lemma length_relativePose: "length (relativePose w g svi i) = 3"
  by (simp add: relativePose_def xyz_def Let_def split: option.splits prod.splits)

lemma length_relativePoses:
  "length (concat (map (relativePose w g svi) is)) = 3 * length is"
  by (induction "is") (simp_all add: length_relativePose)

lemma assignSplatsToPoints_fields:
  assumes "assignSplatsToPoints w g caps cbi fast = Inr g'"
  shows "length (splatVertexIndices g') = splatCount g"
    "length (splatRelativePoses g') = 3 * splatCount g"
    "splatBoneIndices g' = splatBoneIndices g" "splatCount g' = splatCount g"
proof -
  have "length (splatVertexIndices g') = splatCount g \<and>
    length (splatRelativePoses g') = 3 * splatCount g \<and>
    splatBoneIndices g' = splatBoneIndices g \<and> splatCount g' = splatCount g"
  proof (cases "length (position w) \<le> 3")
    case True
    then show ?thesis using assms by (auto simp: assignSplatsToPoints_def)
  next
    case False
    then obtain m svi where
      l: "bindLoop w g fast m [0 ..< splatCount g] [] = Inr svi"
      and g': "g' = g\<lparr>splatVertexIndices := svi,
                 splatRelativePoses := concat (map (relativePose w g svi) [0 ..< splatCount g])\<rparr>"
      using assms by (auto simp: assignSplatsToPoints_def split: sum.splits)
    from bindLoop_length[OF l] show ?thesis by (simp add: g' length_relativePoses)
  qed
  then show "length (splatVertexIndices g') = splatCount g"
    "length (splatRelativePoses g') = 3 * splatCount g"
    "splatBoneIndices g' = splatBoneIndices g" "splatCount g' = splatCount g" by simp_all
qed

subsection \<open>Saving and loading\<close>

lemma splitPLY_concat:
  "splitPLY vs ssi = Inr scs \<Longrightarrow> concat scs = map (\<lambda>i. vs ! i) (concat ssi)"
proof (induction ssi arbitrary: scs)
  case Nil
  then show ?case by simp
next
  case (Cons a ssi)
  then show ?case
    by (auto simp: sceneVertices_def split: sum.splits if_splits)
qed

lemma splitPLY_succeeds:
  "\<forall>i \<in> set (concat ssi). i < length vs \<Longrightarrow> \<exists>scs. splitPLY vs ssi = Inr scs"
  by (induction ssi) (auto simp: sceneVertices_def)

lemma splatOrder_perm: "mset (splatOrder sbi) = mset [0 ..< length sbi]"
proof -
  obtain ssi bsm where g: "groupByBones sbi = (ssi, bsm)" by (cases "groupByBones sbi")
  show ?thesis using groupByBones_char[OF g] groups_partition[of sbi]
    by (simp add: splatOrder_def g)
qed

lemma length_splatOrder: "length (splatOrder sbi) = length sbi"
  using splatOrder_perm[of sbi, THEN arg_cong, of size] by simp

lemma load_save:
  assumes "load (save g ply sc) = Inr l"
  shows "splatBoneIndices l = map (js_get (splatBoneIndices g)) (splatOrder (splatBoneIndices g))"
    "splatVertexIndices l = map (js_get (splatVertexIndices g)) (splatOrder (splatBoneIndices g))"
    "splatRelativePoses l =
       concat (map (\<lambda>i. [js_get (splatRelativePoses g) (i * 3),
                         js_get (splatRelativePoses g) (i * 3 + 1),
                         js_get (splatRelativePoses g) (i * 3 + 2)]) (splatOrder (splatBoneIndices g)))"
    "concat (scenes l) = map (\<lambda>i. ply ! i) (splatOrder (splatBoneIndices g))"
    "loadedSplatCount l = length (splatBoneIndices g)"
proof -
  obtain ssi bsm where gb: "groupByBones (splatBoneIndices g) = (ssi, bsm)"
    by (cases "groupByBones (splatBoneIndices g)")
  have so: "splatOrder (splatBoneIndices g) = concat ssi" by (simp add: splatOrder_def gb)
  from assms obtain scs where sp: "splitPLY ply ssi = Inr scs"
    and l: "l = \<lparr>splatVertexIndices = splatVertexIndices (updateExtraData (data_json (save g ply sc)) ssi),
                 splatBoneIndices = splatBoneIndices (updateExtraData (data_json (save g ply sc)) ssi),
                 splatRelativePoses = splatRelativePoses (updateExtraData (data_json (save g ply sc)) ssi),
                 scenes = scs, loadedSplatCount = length (concat scs), boneSceneMap = bsm\<rparr>"
    by (auto simp: load_def sortSplatsByBones_def save_def gb split: sum.splits)
  show "splatBoneIndices l = map (js_get (splatBoneIndices g)) (splatOrder (splatBoneIndices g))"
    by (simp add: l so updateExtraData_def save_def Let_def)
  show "splatVertexIndices l = map (js_get (splatVertexIndices g)) (splatOrder (splatBoneIndices g))"
    by (simp add: l so updateExtraData_def save_def Let_def)
  show "splatRelativePoses l =
       concat (map (\<lambda>i. [js_get (splatRelativePoses g) (i * 3),
                         js_get (splatRelativePoses g) (i * 3 + 1),
                         js_get (splatRelativePoses g) (i * 3 + 2)]) (splatOrder (splatBoneIndices g)))"
    by (simp add: l so updateExtraData_def save_def Let_def)
  show c: "concat (scenes l) = map (\<lambda>i. ply ! i) (splatOrder (splatBoneIndices g))"
    using splitPLY_concat[OF sp] by (simp add: l so)
  show "loadedSplatCount l = length (splatBoneIndices g)"
    using c length_splatOrder[of "splatBoneIndices g"] by (simp add: l so[symmetric] splitPLY_concat[OF sp])
qed

lemma load_save_succeeds:
  assumes "length (splatBoneIndices g) \<le> length ply"
  shows "\<exists>l. load (save g ply sc) = Inr l"
proof -
  obtain ssi bsm where gb: "groupByBones (splatBoneIndices g) = (ssi, bsm)"
    by (cases "groupByBones (splatBoneIndices g)")
  have "set (concat ssi) = {0 ..< length (splatBoneIndices g)}"
    using splatOrder_perm[of "splatBoneIndices g", THEN arg_cong, of set_mset]
    by (simp add: splatOrder_def gb)
  then have "\<forall>i \<in> set (concat ssi). i < length ply" using assms by auto
  from splitPLY_succeeds[OF this] obtain scs where "splitPLY ply ssi = Inr scs" by blast
  then show ?thesis by (simp add: load_def sortSplatsByBones_def save_def gb)
qed



text \<open>
  Claim C5. When both binding stages return, the three arrays are aligned with the splat
  count, which the stages do not change. Whenever an archive saved from that cloud loads,
  the loaded arrays are aligned with the loaded splat count, which is the splat count at
  bind time; and it does load when \<open>model.ply\<close> holds at least that many vertices.
\<close>

theorem binding_arrays_index_aligned:
  assumes "assignSplatsToBones w g capsules cbi fast = Inr (g1, evals)"
    and "assignSplatsToPoints w g1 capsules cbi fast' = Inr g2"
  shows "aligned g2 (splatCount g2) \<and> splatCount g2 = splatCount g \<and>
         (\<forall>(ply :: 'v list) scale l. load (save g2 ply scale) = Inr l \<longrightarrow>
            aligned l (loadedSplatCount l) \<and> loadedSplatCount l = splatCount g) \<and>
         (\<forall>(ply :: 'v list) scale. splatCount g \<le> length ply \<longrightarrow>
            (\<exists>l. load (save g2 ply scale) = Inr l))"
proof -
  note b = assignSplatsToBones_fields[OF assms(1)]
  note p = assignSplatsToPoints_fields[OF assms(2)]
  have a: "aligned g2 (splatCount g2)" "splatCount g2 = splatCount g"
    using b p by (simp_all add: aligned_def)
  have len: "length (splatBoneIndices g2) = splatCount g" using b p by simp
  have r: "\<And>(ply :: 'v list) scale l. load (save g2 ply scale) = Inr l \<Longrightarrow>
            aligned l (loadedSplatCount l) \<and> loadedSplatCount l = splatCount g"
  proof -
    fix ply :: "'v list" and scale l
    assume "load (save g2 ply scale) = Inr l"
    from load_save[OF this] show "aligned l (loadedSplatCount l) \<and> loadedSplatCount l = splatCount g"
      by (simp add: aligned_def length_splatOrder len length_concat comp_def sum_list_triv)
  qed
  have s: "\<And>(ply :: 'v list) scale. splatCount g \<le> length ply \<Longrightarrow> \<exists>l. load (save g2 ply scale) = Inr l"
    using load_save_succeeds len by metis
  show ?thesis using a r s by blast
qed


text \<open>The two stages on the example scene.\<close>

lemma example_bones:
  "assignSplatsToBones (exampleWorld exampleMesh) (exampleGs [(2, 0, 0), (12, 0, 0)])
     exampleCapsules exampleCapsuleBoneIndex False =
   Inr (exampleBoundGs\<lparr>splatVertexIndices := [], splatRelativePoses := []\<rparr>, 4)"
  by (simp add: example_defs eval_defs exampleBoundGs_def)

lemma example_points:
  "assignSplatsToPoints (exampleWorld exampleMesh)
     (exampleBoundGs\<lparr>splatVertexIndices := [], splatRelativePoses := []\<rparr>)
     exampleCapsules exampleCapsuleBoneIndex False = Inr exampleBoundGs"
  by (simp add: example_defs eval_defs upt_eval exampleBoundGs_def)

text \<open>
  The example cloud of two splats: aligned after binding, and an archive of it with a
  two-vertex point cloud loads into an aligned asset of two splats.
\<close>

theorem binding_arrays_index_aligned_witness:
  "aligned exampleBoundGs 2 \<and>
   (\<exists>l. load (save exampleBoundGs [(2, 0, 0), (12, 0, 0) :: vec3] 1) = Inr l \<and>
        aligned l (loadedSplatCount l) \<and> loadedSplatCount l = 2)"
  using binding_arrays_index_aligned[OF example_bones example_points, where 'v = vec3]
  by (simp add: exampleGs_def exampleBoundGs_def)
     (metis le_refl length_Cons list.size(3) numeral_2_eq_2)






subsection \<open>Bone consistency of the binder\<close>

lemma candidateOffsets_bound:
  assumes "0 < skip" "off \<in> set (candidateOffsets skip n)"
  shows "off < n"
proof -
  from assms(2) obtain k where k: "k < (n + skip - 1) div skip" and off: "off = skip * k"
    by (auto simp: candidateOffsets_def)
  from k have "Suc k \<le> (n + skip - 1) div skip" by simp
  then have "Suc k * skip \<le> n + skip - 1"
    using assms(1) by (simp add: less_eq_div_iff_mult_less_eq)
  then show ?thesis using assms(1) off by (simp add: mult.commute)
qed

lemma candidate_fold_bound:
  "\<forall>off \<in> set offs. off < n \<Longrightarrow> b < n \<Longrightarrow>
   snd (fold (candidateStep w tp vs) offs (d, b)) < n"
proof (induction offs arbitrary: d b)
  case Nil
  then show ?case by simp
next
  case (Cons a offs)
  obtain d' b' where st: "candidateStep w tp vs a (d, b) = (d', b')"
    by (cases "candidateStep w tp vs a (d, b)")
  then have "b' < n" using Cons.prems
    by (auto simp: candidateStep_def Let_def split: if_splits)
  then show ?case using Cons st by simp
qed

lemma nearestInPool_member:
  assumes "vs \<noteq> []"
  shows "\<exists>v \<in> set vs. nearestInPool w fast tp vs = Some v"
proof -
  define skip :: nat where "skip = (if fast then 3 else 1)"
  have sk: "0 < skip" by (simp add: skip_def)
  obtain d b where f: "fold (candidateStep w tp vs) (candidateOffsets skip (length vs)) (PosInf, 0) = (d, b)"
    by (cases "fold (candidateStep w tp vs) (candidateOffsets skip (length vs)) (PosInf, 0)")
  have "snd (fold (candidateStep w tp vs) (candidateOffsets skip (length vs)) (PosInf, 0)) < length vs"
    by (rule candidate_fold_bound) (use assms sk candidateOffsets_bound in auto)
  then have "b < length vs" by (simp add: f)
  then show ?thesis
    using f by (auto simp: nearestInPool_def Let_def skip_def js_nth_def)
qed

lemma bindLoop_nth:
  "bindLoop w g fast m is svi0 = Inr svi \<Longrightarrow>
   svi = svi0 @ map (\<lambda>i. nearestInPool w fast
                     (map_option (gsSceneMatrixWorld w) (vec3_at (centers0 g) i))
                     (the (poolOf m (js_get (splatBoneIndices g) i)))) is \<and>
   (\<forall>i \<in> set is. poolOf m (js_get (splatBoneIndices g) i) \<noteq> None)"
proof (induction "is" arbitrary: svi0)
  case Nil
  then show ?case by simp
next
  case (Cons i "is")
  from Cons.prems obtain svi1 where
    st: "bindStep w g fast m i svi0 = Inr svi1" and rest: "bindLoop w g fast m is svi1 = Inr svi"
    by (auto split: sum.splits)
  from st obtain vs where vs: "poolOf m (js_get (splatBoneIndices g) i) = Some vs"
    and svi1: "svi1 = svi0 @ [nearestInPool w fast (map_option (gsSceneMatrixWorld w) (vec3_at (centers0 g) i)) vs]"
    by (auto simp: bindStep_def Let_def split: option.splits)
  from Cons.IH[OF rest] show ?case by (simp add: svi1 vs)
qed

text \<open>
  The binder searches the pool of the splat's own bone: when no splat's bone has an empty
  pool, the binding is bone-consistent.
\<close>

lemma bone_consistent_when_pools_nonempty:
  assumes big: "3 < length (position w)"
    and pools: "boneVertexIndices w capsules cbi = Inr m"
    and bound: "assignSplatsToPoints w g capsules cbi fast = Inr g'"
    and nonempty: "\<forall>i < splatCount g. \<forall>b vs. js_get (splatBoneIndices g) i = Some b \<longrightarrow>
                      m b = Some vs \<longrightarrow> vs \<noteq> []"
  shows "boneConsistent m g' (splatCount g)"
proof -
  from bound big pools obtain svi where
    l: "bindLoop w g fast m [0 ..< splatCount g] [] = Inr svi"
    and g': "g' = g\<lparr>splatVertexIndices := svi,
               splatRelativePoses := concat (map (relativePose w g svi) [0 ..< splatCount g])\<rparr>"
    by (auto simp: assignSplatsToPoints_def split: sum.splits)
  note n = bindLoop_nth[OF l]
  show ?thesis
    unfolding boneConsistent_def
  proof (intro allI impI)
    fix i assume i: "i < splatCount g"
    from n i have "poolOf m (js_get (splatBoneIndices g) i) \<noteq> None" by simp
    then obtain b vs where b: "js_get (splatBoneIndices g) i = Some b" and vs: "m b = Some vs"
      by (auto simp: poolOf_def split: option.splits)
    have ne: "vs \<noteq> []" using nonempty i b vs by blast
    have "svi ! i = nearestInPool w fast (map_option (gsSceneMatrixWorld w) (vec3_at (centers0 g) i)) vs"
      using n i by (simp add: poolOf_def b vs)
    moreover have "length svi = splatCount g" using n by simp
    ultimately have "js_get svi i = nearestInPool w fast (map_option (gsSceneMatrixWorld w) (vec3_at (centers0 g) i)) vs"
      using i by (simp add: js_get_def)
    with nearestInPool_member[OF ne, of w fast "map_option (gsSceneMatrixWorld w) (vec3_at (centers0 g) i)"]
    obtain v where "v \<in> set vs" "js_get svi i = Some v" by auto
    then show "\<exists>bone vs v. js_get (splatBoneIndices g') i = Some bone \<and> m bone = Some vs \<and>
        js_get (splatVertexIndices g') i = Some v \<and> v \<in> set vs"
      using b vs by (auto simp: g')
  qed
qed




text \<open>That binding is not bone-consistent with those pools.\<close>

lemma empty_pool_not_bone_consistent:
  "\<not> boneConsistent [7 \<mapsto> [], 5 \<mapsto> [0, 1, 2, 3]]
       \<lparr>splatVertexIndices = [None], splatBoneIndices = [Some 7],
        splatRelativePoses = [None, None, None], splatCount = 1,
        centers0 = [12, 0, 0], colors = [138, 119, 199, 1]\<rparr> 1"
  by (simp add: boneConsistent_def js_get_def)

subsection \<open>The stored relative offset\<close>

lemma concat_triples_nth:
  assumes len: "\<And>j. length (f j) = 3" and i: "i < n" and k: "k < 3"
  shows "js_get (concat (map f [0 ..< n])) (i * 3 + k) = f i ! k"
proof -
  have l: "\<And>is. length (concat (map f is)) = 3 * length is"
  proof -
    fix "is" :: "nat list" show "length (concat (map f is)) = 3 * length is"
      by (induction "is") (simp_all add: len)
  qed
  have split: "[0 ..< n] = [0 ..< i] @ i # [Suc i ..< n]"
    using i by (metis le_add1 less_imp_add_positive upt_add_eq_append upt_conv_Cons zero_le plus_nat.add_0)
  have c: "concat (map f [0 ..< n]) = concat (map f [0 ..< i]) @ f i @ concat (map f [Suc i ..< n])"
    by (subst split) simp
  have li: "length (concat (map f [0 ..< i])) = i * 3" using l[of "[0 ..< i]"] by simp
  have "concat (map f [0 ..< n]) ! (i * 3 + k) = f i ! k"
    unfolding c using li k len[of i] by (simp add: nth_append)
  moreover have "i * 3 + k < length (concat (map f [0 ..< n]))"
    using l[of "[0 ..< n]"] i k by simp
  ultimately show ?thesis by (simp add: js_get_def)
qed

lemma list3: "length xs = 3 \<Longrightarrow> [xs ! 0, xs ! 1, xs ! 2] = xs"
  by (auto simp: numeral_3_eq_3 length_Suc_conv)

text \<open>
  Every vertex index in a pool, and so every vertex a splat is bound to, is an index of the
  mesh.
\<close>

lemma fold_empty_pools:
  "(\<forall>b vs. m b = Some vs \<longrightarrow> vs = []) \<Longrightarrow>
   fold (\<lambda>v m. m(v \<mapsto> [])) cbi m b = Some vs \<Longrightarrow> vs = []"
proof (induction cbi arbitrary: m)
  case Nil
  then show ?case by simp
next
  case (Cons a cbi)
  have "\<forall>b vs. (m(a \<mapsto> [])) b = Some vs \<longrightarrow> vs = []"
    using Cons.prems(1) by auto
  from Cons.IH[OF this] Cons.prems(2) show ?case by simp
qed

lemma emptyPools_empty: "emptyPools cbi b = Some vs \<Longrightarrow> vs = []"
  using fold_empty_pools[of Map.empty cbi b vs] by (simp add: emptyPools_def)

lemma vertexStep_range:
  assumes "vertexStep w capsules cbi i m = Inr m'"
    and "\<forall>b vs. m b = Some vs \<longrightarrow> (\<forall>v \<in> set vs. v < n)" and "i < n"
  shows "\<forall>b vs. m' b = Some vs \<longrightarrow> (\<forall>v \<in> set vs. v < n)"
  using assms
  by (auto simp: vertexStep_def Let_def split: prod.splits option.splits if_splits)

lemma vertexLoop_range:
  "vertexLoop w capsules cbi is m = Inr m' \<Longrightarrow>
   \<forall>b vs. m b = Some vs \<longrightarrow> (\<forall>v \<in> set vs. v < n) \<Longrightarrow> \<forall>i \<in> set is. i < n \<Longrightarrow>
   \<forall>b vs. m' b = Some vs \<longrightarrow> (\<forall>v \<in> set vs. v < n)"
proof (induction "is" arbitrary: m)
  case Nil
  then show ?case by simp
next
  case (Cons i "is")
  from Cons.prems(1) obtain m1 where
    st: "vertexStep w capsules cbi i m = Inr m1" and rest: "vertexLoop w capsules cbi is m1 = Inr m'"
    by (auto split: sum.splits)
  have "\<forall>b vs. m1 b = Some vs \<longrightarrow> (\<forall>v \<in> set vs. v < n)"
    using vertexStep_range[OF st Cons.prems(2)] Cons.prems(3) by simp
  from Cons.IH[OF rest this] Cons.prems(3) show ?case by simp
qed

lemma pools_in_range:
  assumes "boneVertexIndices w capsules cbi = Inr m" and "m b = Some vs" and "v \<in> set vs"
  shows "v < length (position w)"
proof -
  have "\<forall>b vs. emptyPools cbi b = Some vs \<longrightarrow> (\<forall>v \<in> set vs. v < length (position w))"
    using emptyPools_empty by fastforce
  from vertexLoop_range[OF assms(1)[unfolded boneVertexIndices_def] this]
  show ?thesis using assms(2,3) by auto
qed

lemma nearestInPool_in_pool:
  "nearestInPool w fast tp vs = Some v \<Longrightarrow> v \<in> set vs"
  by (auto simp: nearestInPool_def Let_def js_nth_def split: prod.splits if_splits)

lemma bound_vertex_in_range:
  assumes bound: "assignSplatsToPoints w g capsules cbi fast = Inr g'"
    and big: "3 < length (position w)"
    and i: "i < splatCount g"
    and v: "js_get (splatVertexIndices g') i = Some v"
  shows "v < length (position w)"
proof -
  from bound big obtain m svi where
    pools: "boneVertexIndices w capsules cbi = Inr m"
    and l: "bindLoop w g fast m [0 ..< splatCount g] [] = Inr svi"
    and g': "g' = g\<lparr>splatVertexIndices := svi,
               splatRelativePoses := concat (map (relativePose w g svi) [0 ..< splatCount g])\<rparr>"
    by (auto simp: assignSplatsToPoints_def split: sum.splits)
  note n = bindLoop_nth[OF l]
  from n i have "poolOf m (js_get (splatBoneIndices g) i) \<noteq> None" by simp
  then obtain b vs where b: "js_get (splatBoneIndices g) i = Some b" and vs: "m b = Some vs"
    by (auto simp: poolOf_def split: option.splits)
  have "svi ! i = nearestInPool w fast (map_option (gsSceneMatrixWorld w) (vec3_at (centers0 g) i)) vs"
    using n i by (simp add: poolOf_def b vs)
  moreover have "length svi = splatCount g" using n by simp
  ultimately have "nearestInPool w fast (map_option (gsSceneMatrixWorld w) (vec3_at (centers0 g) i)) vs = Some v"
    using i v by (simp add: js_get_def g')
  from nearestInPool_in_pool[OF this] pools_in_range[OF pools vs] show ?thesis by blast
qed

text \<open>
  Claim C3, as amended. On a mesh of more than three vertices, for a splat with a centre
  and a bound vertex, the three stored numbers are the splat centre taken
  into mesh-local space (splat scene world matrix, splat group world matrix, inverse of
  the mesh scene world matrix) minus the bound vertex after \<open>applyBoneTransform\<close>, that is,
  the vertex in the pose held at bind time.
\<close>

theorem relative_offset_is_center_minus_skinned_vertex:
  assumes bound: "assignSplatsToPoints w g capsules cbi fast = Inr g'"
    and big: "3 < length (position w)"
    and i: "i < splatCount g"
    and c: "vec3_at (centers0 g) i = Some c"
    and v: "js_get (splatVertexIndices g') i = Some v"
  shows "[js_get (splatRelativePoses g') (i * 3),
          js_get (splatRelativePoses g') (i * 3 + 1),
          js_get (splatRelativePoses g') (i * 3 + 2)]
         = xyz (subVectors (vrmMatrixWorldInv w (gsMatrixWorld w (gsSceneMatrixWorld w c)))
                  (applyBoneTransform w v (position w ! v)))"
proof -
  from bound big obtain svi where
    g': "g' = g\<lparr>splatVertexIndices := svi,
               splatRelativePoses := concat (map (relativePose w g svi) [0 ..< splatCount g])\<rparr>"
    by (auto simp: assignSplatsToPoints_def split: sum.splits)
  have svi: "js_get svi i = Some v" using v by (simp add: g')
  have vr: "v < length (position w)" by (rule bound_vertex_in_range[OF bound big i v])
  have rp: "relativePose w g svi i =
      xyz (subVectors (vrmMatrixWorldInv w (gsMatrixWorld w (gsSceneMatrixWorld w c)))
                  (applyBoneTransform w v (position w ! v)))"
    using vr by (simp add: relativePose_def Let_def svi meshLocalCenter_def c
        boneTransformedVertex_def js_nth_def)
  have n: "\<And>k. k < 3 \<Longrightarrow> js_get (splatRelativePoses g') (i * 3 + k) = relativePose w g svi i ! k"
    unfolding g' using concat_triples_nth[of "relativePose w g svi" i "splatCount g"] i
    by (simp add: length_relativePose)
  have l3: "length (relativePose w g svi i) = 3" by (rule length_relativePose)
  have "[js_get (splatRelativePoses g') (i * 3),
          js_get (splatRelativePoses g') (i * 3 + 1),
          js_get (splatRelativePoses g') (i * 3 + 2)] = relativePose w g svi i"
    using n[of 0] n[of 1] n[of 2] list3[OF l3] by simp
  then show ?thesis by (simp add: rp)
qed

text \<open>
  Splat 0 of the example cloud: centre \<open>(2, 0, 0)\<close>, bound vertex 1 at \<open>(1, 0, 0)\<close>, which the
  bone transform moves to \<open>(1, 1, 0)\<close>.
\<close>

theorem relative_offset_is_center_minus_skinned_vertex_witness:
  "3 < length (position (exampleWorld exampleMesh)) \<and>
   [js_get (splatRelativePoses exampleBoundGs) (0 * 3),
    js_get (splatRelativePoses exampleBoundGs) (0 * 3 + 1),
    js_get (splatRelativePoses exampleBoundGs) (0 * 3 + 2)]
     = xyz (subVectors (2, 0, 0) (1, 1, 0))"
proof -
  have big: "3 < length (position (exampleWorld exampleMesh))"
    by (simp add: example_defs)
  have i: "0 < splatCount (exampleBoundGs\<lparr>splatVertexIndices := [], splatRelativePoses := []\<rparr>)"
    by (simp add: exampleBoundGs_def)
  have c: "vec3_at (centers0 (exampleBoundGs\<lparr>splatVertexIndices := [], splatRelativePoses := []\<rparr>)) 0
             = Some (2, 0, 0)"
    by (simp add: exampleBoundGs_def vec3_at_def)
  have v: "js_get (splatVertexIndices exampleBoundGs) 0 = Some 1"
    by (simp add: exampleBoundGs_def js_get_def)
  show ?thesis
    using big relative_offset_is_center_minus_skinned_vertex[OF example_points big i c v]
    by (simp add: example_defs)
qed

text \<open>
  Claim C3 as stated fails on the example scene: the stored offset of splat 0 is
  \<open>(1, -1, 0)\<close>, the centre minus the un-posed vertex is \<open>(1, 0, 0)\<close>.
\<close>

theorem relative_offset_not_unposed_counterexample:
  "bindSplatsCPU (exampleWorld exampleMesh) (exampleGs [(2, 0, 0), (12, 0, 0)])
     exampleCapsules exampleCapsuleBoneIndex = Inr exampleBoundGs \<and>
   take 3 (splatRelativePoses exampleBoundGs) = [Some 1, Some (- 1), Some 0] \<and>
   unposedRelativeOffset (exampleWorld exampleMesh) exampleBoundGs
     (splatVertexIndices exampleBoundGs) 0 = [Some 1, Some 0, Some 0]"
proof -
  have "bindSplatsCPU (exampleWorld exampleMesh) (exampleGs [(2, 0, 0), (12, 0, 0)])
     exampleCapsules exampleCapsuleBoneIndex = Inr exampleBoundGs"
    by (simp add: bindSplatsCPU_def example_bones example_points)
  moreover have "take 3 (splatRelativePoses exampleBoundGs) = [Some 1, Some (- 1), Some 0]"
    by (simp add: exampleBoundGs_def)
  moreover have "unposedRelativeOffset (exampleWorld exampleMesh) exampleBoundGs
     (splatVertexIndices exampleBoundGs) 0 = [Some 1, Some 0, Some 0]"
    by (simp add: unposedRelativeOffset_def meshLocalCenter_def vec3_at_def js_get_def js_nth_def
        xyz_def subVectors_def exampleBoundGs_def example_defs)
  ultimately show ?thesis by simp
qed

subsection \<open>The retry policy\<close>









subsection \<open>Termination of the radius search\<close>

lemma calculateHeights_throws:
  "measureHeights hs distY vs c d t = Inl e \<Longrightarrow> calculateHeights hs distY vs c d t = Inl e"
  by (subst calculateHeights.simps) simp

lemma calculateHeights_accepts:
  "measureHeights hs distY vs c d t = Inr m \<Longrightarrow> accepted m \<Longrightarrow>
   calculateHeights hs distY vs c d t = Inr (measured m, d)"
  by (subst calculateHeights.simps) simp

lemma calculateHeights_widens:
  "measureHeights hs distY vs c d t = Inr m \<Longrightarrow> \<not> accepted m \<Longrightarrow> d < 3 \<Longrightarrow>
   calculateHeights hs distY vs c d t = calculateHeights hs distY vs c (d + 1 / 10) t"
  by (subst calculateHeights.simps) simp

lemma calculateHeights_gives_up:
  "measureHeights hs distY vs c d t = Inr m \<Longrightarrow> \<not> accepted m \<Longrightarrow> \<not> d < 3 \<Longrightarrow>
   calculateHeights hs distY vs c d t = Inl (CouldNotFindTarget d)"
  by (subst calculateHeights.simps) simp

lemma retriesToCap_step: "d < 3 \<Longrightarrow> retriesToCap d = Suc (retriesToCap (d + 1 / 10))"
proof -
  assume d: "d < 3"
  have "(3 - (d + 1 / 10)) * 10 = (3 - d) * 10 - 1" by (simp add: algebra_simps)
  then have "\<lceil>(3 - (d + 1 / 10)) * 10\<rceil> = \<lceil>(3 - d) * 10 - 1\<rceil>" by (rule arg_cong)
  then have e: "\<lceil>(3 - (d + 1 / 10)) * 10\<rceil> = \<lceil>(3 - d) * 10\<rceil> - 1" by (simp only: ceiling_diff_one)
  define k where "k = \<lceil>(3 - d) * 10\<rceil>"
  have "0 < k" using d by (simp add: k_def)
  then have "nat k = Suc (nat (k - 1))" by simp
  then show ?thesis unfolding retriesToCap_def e k_def .
qed

lemma retriesToCap_done: "\<not> d < 3 \<Longrightarrow> retriesToCap d = 0"
proof -
  assume "\<not> d < 3"
  then have "(3 - d) * 10 \<le> 0" by simp
  then have "\<lceil>(3 - d) * 10\<rceil> \<le> 0" by (simp add: ceiling_le_iff)
  then show ?thesis by (simp add: retriesToCap_def)
qed

lemma calculateHeights_cap:
  assumes "\<forall>r \<ge> distXZ. \<exists>m. measureHeights hs distY vertices c r thresh = Inr m \<and> \<not> accepted m"
  shows "calculateHeights hs distY vertices c distXZ thresh =
           Inl (CouldNotFindTarget (distXZ + real (retriesToCap distXZ) / 10)) \<and>
         3 \<le> distXZ + real (retriesToCap distXZ) / 10 \<and>
         (distXZ < 3 \<longrightarrow> distXZ + real (retriesToCap distXZ) / 10 < 3 + 1 / 10)"
  using assms
proof (induction "retriesToCap distXZ" arbitrary: distXZ)
  case 0
  from "0.prems" obtain m where m: "measureHeights hs distY vertices c distXZ thresh = Inr m"
    "\<not> accepted m" by blast
  have n: "\<not> distXZ < 3"
  proof
    assume "distXZ < 3"
    from retriesToCap_step[OF this] "0.hyps" show False by simp
  qed
  from calculateHeights_gives_up[OF m n] n "0.hyps"[symmetric] show ?case by simp
next
  case (Suc n)
  from Suc.prems obtain m where m: "measureHeights hs distY vertices c distXZ thresh = Inr m"
    "\<not> accepted m" by blast
  have d: "distXZ < 3"
  proof (rule ccontr)
    assume "\<not> distXZ < 3"
    from retriesToCap_done[OF this] Suc.hyps(2) show False by simp
  qed
  have n: "n = retriesToCap (distXZ + 1 / 10)"
    using retriesToCap_step[OF d] Suc.hyps(2) by simp
  have p: "\<forall>r \<ge> distXZ + 1 / 10. \<exists>m. measureHeights hs distY vertices c r thresh = Inr m \<and> \<not> accepted m"
    using Suc.prems by auto
  note ih = Suc.hyps(1)[OF n p]
  have r: "distXZ + real (retriesToCap distXZ) / 10 = distXZ + 1 / 10 + real (retriesToCap (distXZ + 1 / 10)) / 10"
    using retriesToCap_step[OF d] by (simp add: field_simps)
  have lt: "distXZ + real (retriesToCap distXZ) / 10 < 3 + 1 / 10"
  proof -
    have "real_of_int \<lceil>(3 - distXZ) * 10\<rceil> < (3 - distXZ) * 10 + 1" by linarith
    moreover have "real (retriesToCap distXZ) = real_of_int \<lceil>(3 - distXZ) * 10\<rceil>"
      using d by (simp add: retriesToCap_def)
    ultimately show ?thesis by simp
  qed
  show ?case
    using ih calculateHeights_widens[OF m d] lt unfolding r by simp
qed



text \<open>
  When no knee hint is in force and some vertex lies within \<open>distY\<close> of the origin plane,
  every measurement completes; a cloud of fewer than 10,000 vertices never passes the
  acceptance test.
\<close>

lemma fold_min_le_init: "fold min ys (a :: int) \<le> a"
proof (induction ys arbitrary: a)
  case Nil
  then show ?case by simp
next
  case (Cons y ys)
  have "fold min ys (min y a) \<le> min y a" by (rule Cons.IH)
  then show ?case by simp
qed

lemma fold_max_ge_init: "a \<le> fold max ys (a :: int)"
proof (induction ys arbitrary: a)
  case Nil
  then show ?case by simp
next
  case (Cons y ys)
  have "max y a \<le> fold max ys (max y a)" by (rule Cons.IH)
  then show ?case by simp
qed

lemma floorStep_keeps_some:
  "fst st \<noteq> None \<Longrightarrow> fst (floorStep knee sortedY i st) \<noteq> None"
  by (cases st) (auto simp: floorStep_def Let_def)

lemma floorFold_keeps_some:
  "fst st \<noteq> None \<Longrightarrow> fst (fold (floorStep knee sortedY) is st) \<noteq> None"
proof (induction "is" arbitrary: st)
  case Nil
  then show ?case by simp
next
  case (Cons i "is")
  have "fst (floorStep knee sortedY i st) \<noteq> None"
    using Cons.prems by (rule floorStep_keeps_some)
  from Cons.IH[OF this] show ?case by simp
qed

lemma floorFold_finds:
  assumes "is \<noteq> []"
  shows "fst (fold (floorStep None sortedY) is (None, f)) \<noteq> None"
proof -
  from assms obtain i rest where "is = i # rest" by (cases "is") auto
  moreover have "fst (floorStep None sortedY i (None, f)) \<noteq> None"
    by (simp add: floorStep_def Let_def)
  ultimately show ?thesis by (simp add: floorFold_keeps_some)
qed

lemma measureHeights_completes:
  assumes knee: "kneeHint hs = None" and v: "\<exists>v \<in> set vertices. \<bar>vy v\<bar> < distY"
  shows "\<exists>m. measureHeights hs distY vertices c r thresh = Inr m"
proof -
  define rf where "rf = radiusFilteredVertices distY vertices c r thresh"
  have "filter (\<lambda>v. \<bar>vy v\<bar> < distY) vertices \<noteq> []"
    using v by (simp add: filter_empty_conv)
  then have rf: "rf \<noteq> []"
    by (auto simp: rf_def radiusFilteredVertices_def Let_def)
  define ys where "ys = map binKey rf"
  define minY where "minY = fold min ys (hd ys) - int windowN"
  define maxY where "maxY = fold max ys (hd ys) + int windowN"
  define sortedY where "sortedY = sortedYCoords rf minY maxY"
  have "minY + 10 \<le> maxY"
    using fold_min_le_init[of ys "hd ys"] fold_max_ge_init[of "hd ys" ys]
    by (simp add: minY_def maxY_def windowN_def)
  then have "11 \<le> length sortedY"
    by (simp add: sortedY_def sortedYCoords_def)
  then have ne: "[windowN ..< length sortedY - windowN + 1] \<noteq> []"
    by (simp add: windowN_def)
  obtain md fy where f: "fold (floorStep (kneeHint hs) sortedY)
      [windowN ..< length sortedY - windowN + 1] (None, minY + int windowN) = (md, fy)"
    by (cases "fold (floorStep (kneeHint hs) sortedY)
      [windowN ..< length sortedY - windowN + 1] (None, minY + int windowN)")
  have "md \<noteq> None"
    using floorFold_finds[OF ne, of sortedY "minY + int windowN"] f by (simp add: knee)
  then show ?thesis
    using rf f
    by (simp add: measureHeights_def Let_def rf_def[symmetric] ys_def[symmetric]
        minY_def[symmetric] maxY_def[symmetric] sortedY_def[symmetric] del: upt_Suc)
qed

lemma small_cloud_not_accepted:
  assumes "length vertices < 10000" and "measureHeights hs distY vertices c r thresh = Inr m"
  shows "\<not> accepted m"
proof -
  have "inBand m \<le> length vertices"
    using assms(2)
    by (auto simp: measureHeights_def Let_def split: if_splits prod.splits)
  then show ?thesis using assms(1) by (simp add: accepted_def)
qed

text \<open>
  A cloud of fewer than 10,000 vertices, measured without a knee hint, ends in the
  calibration error.
\<close>

lemma small_cloud_calibration_error:
  assumes "kneeHint hs = None" and "\<exists>v \<in> set vertices. \<bar>vy v\<bar> < distY"
    and "length vertices < 10000"
  shows "calculateHeights hs distY vertices c distXZ thresh =
           Inl (CouldNotFindTarget (distXZ + real (retriesToCap distXZ) / 10))"
proof -
  have "\<forall>r \<ge> distXZ. \<exists>m. measureHeights hs distY vertices c r thresh = Inr m \<and> \<not> accepted m"
    using measureHeights_completes[OF assms(1,2)] small_cloud_not_accepted[OF assms(3)]
    by blast
  from calculateHeights_cap[OF this] show ?thesis by simp
qed


subsection \<open>The foreground and background clouds\<close>

lemma mset_filter_complement:
  "(\<And>x. x \<in> set vs \<Longrightarrow> Q x \<longleftrightarrow> \<not> P x) \<Longrightarrow> mset (filter P vs) + mset (filter Q vs) = mset vs"
  by (induction vs) auto

lemma band_partition:
  "mset (filteredVertices6 vs c d h) + mset (filteredVertices7 vs c d h) = mset vs"
  unfolding filteredVertices6_def filteredVertices7_def
  by (rule mset_filter_complement) auto

lemma detectShoes_partition:
  assumes "minH h < maxH h"
  shows "mset (fst (detectShoes vs h)) + mset (snd (detectShoes vs h)) = mset vs"
proof -
  define ymin where "ymin = (maxH h - minH h) * (5 / 100) + minH h"
  define keep where "keep = shoeKeep (filter (\<lambda>v. - vy v < ymin \<and> originDistance v < 1 / 2) vs) h"
  have y: "minH h < ymin" using assms by (simp add: ymin_def)
  have d: "detectShoes vs h =
     (filter (\<lambda>v. - vy v \<ge> ymin \<or>
                         (- vy v \<ge> minH h \<and> - vy v \<le> ymin \<and> originDistance v < 1 / 2 \<and>
                          keep (gridKey v))) vs,
      filter (\<lambda>v. - vy v < minH h \<or>
                         (- vy v < ymin \<and> originDistance v \<ge> 1 / 2) \<or>
                         (- vy v < ymin \<and> originDistance v < 1 / 2 \<and> \<not> keep (gridKey v))) vs)"
    unfolding detectShoes_def Let_def ymin_def keep_def ..
  show ?thesis
    unfolding d fst_conv snd_conv
    by (rule mset_filter_complement) (use y in auto)
qed

lemma foregroundBackground_mset:
  assumes "minH h3 < maxH h3"
  shows "mset (fst (foregroundBackground vertices c distXZ h2 h3)) +
         mset (snd (foregroundBackground vertices c distXZ h2 h3)) = mset vertices"
proof -
  define f6 where "f6 = filteredVertices6 vertices c distXZ h2"
  define f7 where "f7 = filteredVertices7 vertices c distXZ h2"
  have 1: "mset (fst (detectShoes f6 h3)) + mset (snd (detectShoes f6 h3)) = mset f6"
    by (rule detectShoes_partition[OF assms])
  have 2: "mset f6 + mset f7 = mset vertices"
    unfolding f6_def f7_def by (rule band_partition)
  have "mset (fst (foregroundBackground vertices c distXZ h2 h3)) +
         mset (snd (foregroundBackground vertices c distXZ h2 h3))
        = mset (fst (detectShoes f6 h3)) + (mset f7 + mset (snd (detectShoes f6 h3)))"
    by (simp add: foregroundBackground_def f6_def f7_def split: prod.splits)
  also have "\<dots> = (mset (fst (detectShoes f6 h3)) + mset (snd (detectShoes f6 h3))) + mset f7"
    by (simp add: ac_simps)
  also have "\<dots> = mset vertices" using 1 2 by simp
  finally show ?thesis .
qed




text \<open>
  A successful \<open>calculateHeights\<close> returns heights more than 0.3 apart, so every successful
  \<open>cleanSplats\<close> writes a partition of its input.
\<close>

lemma calculateHeights_band:
  "calculateHeights hs distY vs c d t = Inr (h, d') \<Longrightarrow> minH h < maxH h"
proof (induction hs distY vs c d t rule: calculateHeights.induct)
  case (1 hs distY vs c d t)
  show ?case
  proof (cases "measureHeights hs distY vs c d t")
    case (Inl e)
    then show ?thesis using "1.prems" by (subst (asm) calculateHeights.simps) simp
  next
    case (Inr m)
    show ?thesis
    proof (cases "accepted m")
      case True
      then have "h = measured m"
        using "1.prems" Inr by (subst (asm) calculateHeights.simps) simp
      then show ?thesis using True by (simp add: accepted_def)
    next
      case False
      show ?thesis
      proof (cases "d < 3")
        case True
        have "calculateHeights hs distY vs c (d + 1 / 10) t = Inr (h, d')"
          using "1.prems" Inr False True by (subst (asm) calculateHeights.simps) simp
        from "1.IH"[OF Inr False True this] show ?thesis .
      next
        case nd: False
        then show ?thesis
          using "1.prems" Inr False by (subst (asm) calculateHeights.simps) simp
      qed
    qed
  qed
qed

lemma cleanSplats_partition:
  assumes "cleanSplats hs distY vertices = Inr r"
  shows "mset (foreground r) + mset (background r) = mset vertices"
proof -
  from assms obtain c2 d2 h2 c3 h3 d3 where
    ch: "calculateHeights hs distY (filteredVertices6 vertices c2 d2 h2) c3 d2 (1 / 2) = Inr (h3, d3)"
    and r: "foreground r = fst (foregroundBackground vertices c2 d2 h2 h3)"
           "background r = snd (foregroundBackground vertices c2 d2 h2 h3)"
    by (auto simp: cleanSplats_def thenE_def Let_def split: sum.splits prod.splits)
  from calculateHeights_band[OF ch] have "minH h3 < maxH h3" .
  from foregroundBackground_mset[OF this] show ?thesis by (simp add: r)
qed

end
